theory Spec2Isabelle
  imports Main "HOL-Library.Word"
begin

unbundle bit_operations_syntax

section \<open>The shotgun object memory: creation of an object record\<close>

text \<open>
  The source is \<^verbatim>\<open>shotgun/lib/object_memory-inline.h\<close>, the function
  \<^verbatim>\<open>_om_inline_new_object\<close> (the leading underscore is dropped, an Isabelle name starts
  with a letter). The function is written against macros and helpers of headers that are
  not among the sources; each of them is named below, with the place it comes from.
\<close>

subsection \<open>Values and records\<close>

text \<open>
  An \<^verbatim>\<open>OBJECT\<close> is a tagged machine word: the C null pointer, the nil sentinel
  \<^verbatim>\<open>Qnil\<close>, another immediate, a fixnum, or a reference to a record in memory.
\<close>

datatype OBJECT = NULL_OBJECT | Qnil | Immediate nat | Fixnum int | Reference int

definition REFERENCE_P :: "OBJECT \<Rightarrow> bool" where
  "REFERENCE_P v = (case v of Reference a \<Rightarrow> True | _ \<Rightarrow> False)"

datatype gc_zone = GC_UNSPECIFIED | GC_MATURE_OBJECTS | GC_YOUNG_OBJECTS | GC_LARGE_OBJECTS

text \<open>
  \<^verbatim>\<open>struct rubinius_object\<close>: the header the function writes (\<open>klass\<close>, the field
  count of \<^verbatim>\<open>SET_NUM_FIELDS\<close>, \<open>flags\<close>, \<open>flags2\<close>, the zone of
  \<^verbatim>\<open>GC_ZONE_SET\<close>, \<open>hash\<close>) and the field slots behind it. A slot that was never
  written holds whatever the memory held: \<open>field\<close> is total.
\<close>

record rubinius_object =
  klass :: OBJECT
  num_fields :: int
  flags :: int
  flags2 :: int
  gc_zone :: gc_zone
  hash :: "32 word"
  field :: "nat \<Rightarrow> OBJECT"

text \<open>
  Modelled from the spec: the declaration of \<^verbatim>\<open>struct heap\<close> is missing. Section 3 of
  the specification describes a heap space as a contiguous region with a bump cursor and
  a limit.
\<close>

record rheap =
  heap_current :: int
  heap_last :: int

text \<open>The young generation \<^verbatim>\<open>om->gc\<close> with its two spaces.\<close>

record baker_gc =
  current :: rheap
  "next" :: rheap

text \<open>
  The object memory: the flag \<^verbatim>\<open>collect_now\<close>, the counter \<^verbatim>\<open>last_object_id\<close>, the
  young generation, and the memory the headers live in, by address. The counter and the
  header's \<^verbatim>\<open>hash\<close> are C integers of 32 bits (their declarations are in headers that
  are not among the sources): \<^verbatim>\<open>om->last_object_id++\<close> wraps around modulo \<open>2 ^ 32\<close>.
\<close>

record object_memory =
  collect_now :: int
  last_object_id :: "32 word"
  gc :: baker_gc
  memory :: "int \<Rightarrow> rubinius_object"

text \<open>
  The constants \<^verbatim>\<open>HEADER_SIZE\<close> and \<^verbatim>\<open>REFSIZE\<close> and the macro
  \<^verbatim>\<open>FIXNUM_TO_INT\<close> are defined in headers that are not among the sources. They are
  parameters. \<open>untag\<close> is what the macro yields on a word that is not a fixnum.
\<close>

record layout =
  HEADER_SIZE :: int
  REFSIZE :: int
  untag :: "OBJECT \<Rightarrow> int"

definition FIXNUM_TO_INT :: "layout \<Rightarrow> OBJECT \<Rightarrow> int" where
  "FIXNUM_TO_INT lay v = (case v of Fixnum n \<Rightarrow> n | _ \<Rightarrow> untag lay v)"

text \<open>
  \<^verbatim>\<open>NTH_FIELD(obj, n)\<close> reads slot \<open>n\<close> of the record \<open>obj\<close> points to, with no bounds
  check. It is used on references only.
\<close>

definition NTH_FIELD :: "(int \<Rightarrow> rubinius_object) \<Rightarrow> OBJECT \<Rightarrow> nat \<Rightarrow> OBJECT" where
  "NTH_FIELD mem obj n = (case obj of Reference a \<Rightarrow> field (mem a) n | _ \<Rightarrow> NULL_OBJECT)"

definition rbs_set_field :: "(int \<Rightarrow> rubinius_object) \<Rightarrow> int \<Rightarrow> nat \<Rightarrow> OBJECT
    \<Rightarrow> (int \<Rightarrow> rubinius_object)" where
  "rbs_set_field mem a i v = mem(a := (mem a)\<lparr>field := (field (mem a))(i := v)\<rparr>)"

subsection \<open>Heap spaces\<close>

text \<open>
  Modelled from the spec: \<^verbatim>\<open>heap_enough_space_p\<close> and the allocation in a space are
  missing. A request fits when the cursor, advanced by the size, stays within the limit;
  allocation returns the cursor and advances it (section 4.3: steady-state allocation
  bumps a cursor).
\<close>

definition heap_enough_space_p :: "rheap \<Rightarrow> int \<Rightarrow> bool" where
  "heap_enough_space_p h sz = (heap_current h + sz \<le> heap_last h)"

definition heap_allocate :: "rheap \<Rightarrow> int \<Rightarrow> int \<times> rheap" where
  "heap_allocate h sz = (heap_current h, h\<lparr>heap_current := heap_current h + sz\<rparr>)"

text \<open>
  Modelled from the spec: \<^verbatim>\<open>baker_gc_allocate\<close> and \<^verbatim>\<open>baker_gc_allocate_spilled\<close> are
  missing. Section 4.1: a request is served from the current space; a spilled one is
  placed directly into the next space.
\<close>

definition baker_gc_allocate :: "baker_gc \<Rightarrow> int \<Rightarrow> int \<times> baker_gc" where
  "baker_gc_allocate g sz =
     (case heap_allocate (current g) sz of (a, h) \<Rightarrow> (a, g\<lparr>current := h\<rparr>))"

definition baker_gc_allocate_spilled :: "baker_gc \<Rightarrow> int \<Rightarrow> int \<times> baker_gc" where
  "baker_gc_allocate_spilled g sz =
     (case heap_allocate (next g) sz of (a, h) \<Rightarrow> (a, g\<lparr>next := h\<rparr>))"

subsection \<open>The function\<close>

text \<open>
  What ends a call without a result: the \<^verbatim>\<open>assert\<close> of the spill path, and the
  overflow of the \<^verbatim>\<open>int\<close> the size is computed in (undefined in C, so nothing is
  said of such a call).
\<close>

datatype fault = AssertionFailed | SignedOverflow

definition c_int :: "int \<Rightarrow> bool" where
  "c_int x = (- (2 ^ 31) \<le> x \<and> x < 2 ^ 31)"

text \<open>The loop \<^verbatim>\<open>for(i = 0; i < fields; i++) rbs_set_field(om, obj, i, Qnil)\<close>.\<close>

function set_fields_nil :: "(int \<Rightarrow> rubinius_object) \<Rightarrow> int \<Rightarrow> int \<Rightarrow> int
    \<Rightarrow> (int \<Rightarrow> rubinius_object)" where
  "set_fields_nil mem a i nfields =
     (if i < nfields then set_fields_nil (rbs_set_field mem a (nat i) Qnil) a (i + 1) nfields
      else mem)"
  by pat_completeness auto
termination
  by (relation "measure (\<lambda>(mem, a, i, nfields). nat (nfields - i))") auto

declare set_fields_nil.simps [simp del]

text \<open>The first half: where the record goes.\<close>

definition place_object :: "object_memory \<Rightarrow> int \<Rightarrow> fault + (int \<times> object_memory)" where
  "place_object om sz =
     (if \<not> heap_enough_space_p (current (gc om)) sz then
        (case baker_gc_allocate_spilled (gc om) sz of (a, g) \<Rightarrow>
           if \<not> heap_enough_space_p (next g) sz then Inl AssertionFailed
           else Inr (a, om\<lparr>gc := g, collect_now := collect_now om OR 1\<rparr>))
      else
        (case baker_gc_allocate (gc om) sz of (a, g) \<Rightarrow> Inr (a, om\<lparr>gc := g\<rparr>)))"

text \<open>The second half: the header and the slots, in the order of the source.\<close>

definition write_header :: "(int \<Rightarrow> rubinius_object) \<Rightarrow> int
    \<Rightarrow> (rubinius_object \<Rightarrow> rubinius_object) \<Rightarrow> (int \<Rightarrow> rubinius_object)" where
  "write_header mem a upd = mem(a := upd (mem a))"

definition init_object :: "layout \<Rightarrow> object_memory \<Rightarrow> int \<Rightarrow> OBJECT \<Rightarrow> int
    \<Rightarrow> OBJECT \<times> object_memory" where
  "init_object lay om a cls nfields =
     (let m1 = write_header (memory om) a (\<lambda>r. r\<lparr>klass := cls\<rparr>);
          m2 = write_header m1 a (\<lambda>r. r\<lparr>num_fields := nfields\<rparr>);
          f = (if cls \<noteq> NULL_OBJECT \<and> REFERENCE_P cls
               then FIXNUM_TO_INT lay (NTH_FIELD m2 cls 8)
               else 0);
          m3 = write_header m2 a (\<lambda>r. r\<lparr>flags := f\<rparr>);
          m4 = write_header m3 a (\<lambda>r. r\<lparr>flags2 := 0\<rparr>);
          m5 = set_fields_nil m4 a 0 nfields;
          m6 = write_header m5 a (\<lambda>r. r\<lparr>gc_zone := GC_YOUNG_OBJECTS\<rparr>);
          m7 = write_header m6 a (\<lambda>r. r\<lparr>hash := last_object_id om\<rparr>)
      in (Reference a, om\<lparr>memory := m7, last_object_id := last_object_id om + 1\<rparr>))"

definition om_inline_new_object :: "layout \<Rightarrow> object_memory \<Rightarrow> OBJECT \<Rightarrow> int
    \<Rightarrow> fault + (OBJECT \<times> object_memory)" where
  "om_inline_new_object lay om cls nfields =
     (if \<not> (c_int (HEADER_SIZE lay + nfields)
             \<and> c_int ((HEADER_SIZE lay + nfields) * REFSIZE lay))
      then Inl SignedOverflow
      else
        (case place_object om ((HEADER_SIZE lay + nfields) * REFSIZE lay) of
           Inl e \<Rightarrow> Inl e
         | Inr (a, om1) \<Rightarrow> Inr (init_object lay om1 a cls nfields)))"

subsection \<open>Runs of the object memory\<close>

text \<open>
  Modelled from the spec: the collector is missing. Section 4.3 lets a collection rewrite
  both spaces and the records in them (copying, forwarding, promotion, the swap of the
  roles); nothing in its description touches the identity counter. A collection is given
  by the spaces and the memory it leaves behind.
\<close>

definition collected :: "object_memory \<Rightarrow> baker_gc \<Rightarrow> (int \<Rightarrow> rubinius_object) \<Rightarrow> object_memory" where
  "collected om g m = om\<lparr>collect_now := 0, gc := g, memory := m\<rparr>"

text \<open>
  A run of the object memory: allocations and collections, in the order they happen. It
  returns the identity value of every record created, in that order.
\<close>

datatype om_request = New_Object OBJECT int | Collection baker_gc "int \<Rightarrow> rubinius_object"

definition identity_of :: "object_memory \<Rightarrow> OBJECT \<Rightarrow> 32 word" where
  "identity_of om obj = (case obj of Reference a \<Rightarrow> hash (memory om a) | _ \<Rightarrow> 0)"

fun om_run :: "layout \<Rightarrow> object_memory \<Rightarrow> om_request list \<Rightarrow> fault + (32 word list \<times> object_memory)" where
  "om_run lay om [] = Inr ([], om)"
| "om_run lay om (New_Object cls nfields # rs) =
     (case om_inline_new_object lay om cls nfields of
        Inl e \<Rightarrow> Inl e
      | Inr (obj, om1) \<Rightarrow>
          (case om_run lay om1 rs of
             Inl e \<Rightarrow> Inl e
           | Inr (ids, om2) \<Rightarrow> Inr (identity_of om1 obj # ids, om2)))"
| "om_run lay om (Collection g m # rs) = om_run lay (collected om g m) rs"

subsection \<open>A concrete object memory\<close>

text \<open>
  Four header words of four bytes; two spaces of a thousand bytes; a class descriptor at
  address 100 whose slot 8 holds the fixnum 5.
\<close>

definition example_layout :: layout where
  "example_layout = \<lparr>HEADER_SIZE = 4, REFSIZE = 4, untag = (\<lambda>v. 0)\<rparr>"

definition blank_object :: rubinius_object where
  "blank_object = \<lparr>klass = NULL_OBJECT, num_fields = 0, flags = 0, flags2 = 0,
     gc_zone = GC_UNSPECIFIED, hash = 0, field = (\<lambda>j. NULL_OBJECT)\<rparr>"

definition example_class :: rubinius_object where
  "example_class = blank_object\<lparr>num_fields := 9, field := (\<lambda>j. if j = 8 then Fixnum 5 else Qnil)\<rparr>"

definition example_memory :: "int \<Rightarrow> int \<Rightarrow> object_memory" where
  "example_memory used_current used_next =
     \<lparr>collect_now = 0, last_object_id = 7,
      gc = \<lparr>current = \<lparr>heap_current = 1000 + used_current, heap_last = 2000\<rparr>,
            next = \<lparr>heap_current = 2000 + used_next, heap_last = 3000\<rparr>\<rparr>,
      memory = (\<lambda>a. if a = 100 then example_class else blank_object)\<rparr>"

section \<open>The virtual machine: waiting and waking (vm.cpp)\<close>

subsection \<open>Values of the C++ object model\<close>

text \<open>
  An \<^verbatim>\<open>Object*\<close> is an immediate (\<^verbatim>\<open>cNil\<close>, \<^verbatim>\<open>cTrue\<close>, \<^verbatim>\<open>cFalse\<close>, a fixnum,
  a symbol) or a reference to a heap object. \<^verbatim>\<open>nil<Channel>()\<close> and
  \<^verbatim>\<open>nil<Thread>()\<close> are \<^verbatim>\<open>cNil\<close> at another static type.
\<close>

datatype Object = cNil | cTrue | cFalse | FixnumValue int | SymbolValue nat | HeapRef nat

definition nil_p :: "Object \<Rightarrow> bool" where
  "nil_p v = (v = cNil)"

definition reference_p :: "Object \<Rightarrow> bool" where
  "reference_p v = (case v of HeapRef a \<Rightarrow> True | _ \<Rightarrow> False)"

definition fixnum_p :: "Object \<Rightarrow> bool" where
  "fixnum_p v = (case v of FixnumValue n \<Rightarrow> True | _ \<Rightarrow> False)"

subsection \<open>The wait record of a mutator\<close>

text \<open>
  The members of \<^verbatim>\<open>class VM\<close> that the waiting and waking functions read and write:
  \<open>parked\<close> is \<^verbatim>\<open>park_->parked_p()\<close>; the two locks are spin locks, \<open>True\<close> when
  taken (\<^verbatim>\<open>shared.wait_lock()\<close> belongs to the shared state and is seen from this
  mutator); \<open>sleep\<close> is the slot that \<^verbatim>\<open>thread->sleep(this, v)\<close> sets; a function
  pointer and a \<^verbatim>\<open>void*\<close> are numbers, \<open>0\<close> the null pointer.
\<close>

record VM =
  parked :: bool
  interrupt_lock :: bool
  wait_lock :: bool
  check_local_interrupts :: bool
  interrupt_with_signal :: bool
  waiting_channel :: Object
  waiting_object :: Object
  custom_wakeup :: nat
  custom_wakeup_data :: nat
  sleep :: Object

text \<open>
  What a call does to the world outside the record, in the order it does it: the
  acquisitions and releases of \<^verbatim>\<open>interrupt_lock_\<close>, and the calls into the park, the
  operating system, the object memory, an inflated header, a channel and a custom
  callback.
\<close>

datatype effect =
    Lock_interrupt
  | Unlock_interrupt
  | Unpark
  | Pthread_kill
  | Release_contention
  | Inflated_header Object
  | Inflated_wakeup Object
  | Channel_send Object Object
  | Custom_call nat nat

type_synonym world = "VM \<times> effect list"

definition perform :: "effect \<Rightarrow> world \<Rightarrow> world" where
  "perform e w = (fst w, snd w @ [e])"

text \<open>
  \<^verbatim>\<open>SpinLock::lock\<close> spins until the lock is free. With the lock taken and nobody to
  release it, it never returns: \<open>None\<close>. \<^verbatim>\<open>SpinLock::unlock\<close> frees the lock, taken or
  not. A \<^verbatim>\<open>LockGuard\<close> locks where it is declared and unlocks when the function returns.
\<close>

definition lock_interrupt :: "world \<Rightarrow> world option" where
  "lock_interrupt w =
     (if interrupt_lock (fst w) then None
      else Some ((fst w)\<lparr>interrupt_lock := True\<rparr>, snd w @ [Lock_interrupt]))"

definition unlock_interrupt :: "world \<Rightarrow> world" where
  "unlock_interrupt w = ((fst w)\<lparr>interrupt_lock := False\<rparr>, snd w @ [Unlock_interrupt])"

definition lock_wait :: "VM \<Rightarrow> VM option" where
  "lock_wait vm = (if wait_lock vm then None else Some (vm\<lparr>wait_lock := True\<rparr>))"

definition unlock_wait :: "VM \<Rightarrow> VM" where
  "unlock_wait vm = vm\<lparr>wait_lock := False\<rparr>"

text \<open>
  Modelled from the spec: \<^verbatim>\<open>set_check_local_interrupts\<close> is declared in
  \<^verbatim>\<open>vm.hpp\<close>, which is missing. It raises the flag that makes the mutator look for
  the asynchronous interrupts of section 7 (\<open>register_raise\<close> and \<open>register_kill\<close>
  call it after recording theirs).
\<close>

definition set_check_local_interrupts :: "VM \<Rightarrow> VM" where
  "set_check_local_interrupts vm = vm\<lparr>check_local_interrupts := True\<rparr>"

text \<open>
  Modelled from the spec: \<^verbatim>\<open>Park::unpark\<close> is declared in \<^verbatim>\<open>park.hpp\<close>, which is
  missing. Sections 4.6 and 8: a parked mutator is unparked and resumes, and a second
  wakeup right after it reports failure. The mutator is no longer parked.
\<close>

definition unpark :: "world \<Rightarrow> world" where
  "unpark w = perform Unpark ((fst w)\<lparr>parked := False\<rparr>, snd w)"

text \<open>
  \<^verbatim>\<open>VM::wakeup\<close>, statement by statement (the build without \<^verbatim>\<open>RBX_WINDOWS\<close>). The
  result is the value returned, the mutator, and the effects in their order.
\<close>

definition wakeup :: "VM \<Rightarrow> (bool \<times> world) option" where
  "wakeup vm =
     (case lock_interrupt (vm, []) of
        None \<Rightarrow> None
      | Some w0 \<Rightarrow>
          let w1 = (set_check_local_interrupts (fst w0), snd w0);
              wait = waiting_object (fst w1)
          in
            if parked (fst w1) then
              let w2 = unpark w1
              in Some (True, unlock_interrupt w2)
            else if interrupt_with_signal (fst w1) then
              let w2 = perform Pthread_kill w1;
                  w3 = unlock_interrupt w2;
                  w4 = perform Release_contention w3
              in Some (True, unlock_interrupt w4)
            else if \<not> nil_p wait then
              let w2 = perform (Inflated_header wait) w1;
                  w3 = unlock_interrupt w2;
                  w4 = perform (Inflated_wakeup wait) w3
              in Some (True, unlock_interrupt w4)
            else
              let chan = waiting_channel (fst w1)
              in
                if \<not> nil_p chan then
                  let w2 = unlock_interrupt w1;
                      w3 = perform Release_contention w2;
                      w4 = perform (Channel_send chan cNil) w3
                  in Some (True, unlock_interrupt w4)
                else if custom_wakeup (fst w1) \<noteq> 0 then
                  let w2 = unlock_interrupt w1;
                      w3 = perform Release_contention w2;
                      w4 = perform (Custom_call (custom_wakeup (fst w3))
                                      (custom_wakeup_data (fst w3))) w3
                  in Some (True, unlock_interrupt w4)
                else Some (False, unlock_interrupt w1))"

text \<open>\<^verbatim>\<open>VM::clear_waiter\<close> and the three registrations.\<close>

definition clear_waiter :: "VM \<Rightarrow> VM option" where
  "clear_waiter vm =
     (case lock_wait vm of
        None \<Rightarrow> None
      | Some vm1 \<Rightarrow>
          Some (unlock_wait (vm1\<lparr>interrupt_with_signal := False, waiting_channel := cNil,
                  waiting_object := cNil, custom_wakeup := 0, custom_wakeup_data := 0\<rparr>)))"

definition wait_on_channel :: "VM \<Rightarrow> Object \<Rightarrow> VM option" where
  "wait_on_channel vm chan =
     (case lock_interrupt (vm, []) of
        None \<Rightarrow> None
      | Some w0 \<Rightarrow>
          let vm1 = (fst w0)\<lparr>sleep := cTrue\<rparr>;
              vm2 = vm1\<lparr>waiting_channel := chan\<rparr>
          in Some (fst (unlock_interrupt (vm2, snd w0))))"

definition wait_on_inflated_lock :: "VM \<Rightarrow> Object \<Rightarrow> VM option" where
  "wait_on_inflated_lock vm wait =
     (case lock_wait vm of
        None \<Rightarrow> None
      | Some vm1 \<Rightarrow> Some (unlock_wait (vm1\<lparr>waiting_object := wait\<rparr>)))"

definition wait_on_custom_function :: "VM \<Rightarrow> nat \<Rightarrow> nat \<Rightarrow> VM option" where
  "wait_on_custom_function vm func data =
     (case lock_wait vm of
        None \<Rightarrow> None
      | Some vm1 \<Rightarrow>
          Some (unlock_wait (vm1\<lparr>custom_wakeup := func, custom_wakeup_data := data\<rparr>)))"

text \<open>
  The kinds of wait record of the specification's data model, and the ones a mutator has
  active: it is parked, its channel is not nil, the object it is blocked on is not nil,
  its callback is not null.
\<close>

datatype wait_kind = Parked_token | On_channel | On_object | On_custom

definition wait_kinds :: "VM \<Rightarrow> wait_kind list" where
  "wait_kinds vm =
     (if parked vm then [Parked_token] else [])
     @ (if \<not> nil_p (waiting_channel vm) then [On_channel] else [])
     @ (if \<not> nil_p (waiting_object vm) then [On_object] else [])
     @ (if custom_wakeup vm \<noteq> 0 then [On_custom] else [])"

text \<open>
  The lock discipline of a call, read off its effects: \<open>unlocked_calls held es\<close> holds
  when no call into an inflated header's wake path happens in \<open>es\<close> while
  \<^verbatim>\<open>interrupt_lock_\<close> is held (\<open>held\<close> says whether it is at the start).
\<close>

fun unlocked_calls :: "bool \<Rightarrow> effect list \<Rightarrow> bool" where
  "unlocked_calls held [] = True"
| "unlocked_calls held (Lock_interrupt # es) = unlocked_calls True es"
| "unlocked_calls held (Unlock_interrupt # es) = unlocked_calls False es"
| "unlocked_calls held (Inflated_wakeup obj # es) = (\<not> held \<and> unlocked_calls held es)"
| "unlocked_calls held (e # es) = unlocked_calls held es"

text \<open>A mutator with nothing to wait for, and concrete ones built from it.\<close>

definition idle_vm :: VM where
  "idle_vm = \<lparr>parked = False, interrupt_lock = False, wait_lock = False,
     check_local_interrupts = False, interrupt_with_signal = False,
     waiting_channel = cNil, waiting_object = cNil, custom_wakeup = 0,
     custom_wakeup_data = 0, sleep = cFalse\<rparr>"

section \<open>The virtual machine: type checks, the checkpoint and allocation (vm.cpp)\<close>

subsection \<open>Heap objects\<close>

text \<open>
  The enumeration \<^verbatim>\<open>object_type\<close> and the zones are declared in headers that are not
  among the sources; the tags named in \<^verbatim>\<open>vm.cpp\<close> are \<^verbatim>\<open>FixnumType\<close>,
  \<^verbatim>\<open>String::type\<close>, \<^verbatim>\<open>Tuple::type\<close> and the zone \<^verbatim>\<open>YoungObjectZone\<close>. Every other
  tag is \<open>Other_type n\<close>.
\<close>

datatype object_type = ObjectType | FixnumType | StringType | TupleType | Other_type nat

datatype object_zone = UnspecifiedZone | MatureObjectZone | YoungObjectZone

text \<open>
  The header of a heap object, as \<^verbatim>\<open>init_header(cls, zone, type)\<close> and
  \<^verbatim>\<open>tup->full_size_ = bytes\<close> write it. \<^verbatim>\<open>size_t\<close> is a 64-bit word.
\<close>

record ObjectHeader =
  header_klass :: Object
  header_zone :: object_zone
  header_type :: object_type
  full_size :: "64 word"

type_synonym object_store = "nat \<Rightarrow> ObjectHeader"

text \<open>\<^verbatim>\<open>obj->type_id()\<close>: the tag in the header of a reference, the tag of a fixnum.\<close>

definition type_id :: "object_store \<Rightarrow> Object \<Rightarrow> object_type" where
  "type_id objs v =
     (case v of HeapRef a \<Rightarrow> header_type (objs a) | FixnumValue n \<Rightarrow> FixnumType
      | _ \<Rightarrow> ObjectType)"

definition init_header :: "object_store \<Rightarrow> nat \<Rightarrow> Object \<Rightarrow> object_zone \<Rightarrow> object_type
    \<Rightarrow> object_store" where
  "init_header objs a cls z ty =
     objs(a := (objs a)\<lparr>header_klass := cls, header_zone := z, header_type := ty\<rparr>)"

definition set_full_size :: "object_store \<Rightarrow> nat \<Rightarrow> 64 word \<Rightarrow> object_store" where
  "set_full_size objs a bytes = objs(a := (objs a)\<lparr>full_size := bytes\<rparr>)"

subsection \<open>The type check\<close>

text \<open>
  \<^verbatim>\<open>Exception::type_error(state, type, obj, msg)\<close> raises the language-level error; it
  carries the expected type, the object and the message. \<^verbatim>\<open>obj->to_string(state, true)\<close>,
  the description of the value, is a parameter.
\<close>

datatype exception = Type_error object_type Object string

definition type_assert :: "object_store \<Rightarrow> (Object \<Rightarrow> string) \<Rightarrow> Object \<Rightarrow> object_type
    \<Rightarrow> string \<Rightarrow> exception + object_store" where
  "type_assert objs to_string obj ty reason =
     (if (reference_p obj \<and> type_id objs obj \<noteq> ty) \<or> (ty = FixnumType \<and> \<not> fixnum_p obj)
      then Inl (Type_error ty obj (reason @ '': '' @ to_string obj))
      else Inr objs)"

subsection \<open>The object memory and the coordinator\<close>

text \<open>
  Modelled from the spec: \<^verbatim>\<open>gc::Slab\<close> and the shared young and mature heaps are
  missing. Section 3: a region has a bump cursor and a limit, and a slab is a thread-owned
  view (cursor and limit) into one. An address is a number, \<open>0\<close> the null pointer.
\<close>

record region =
  cursor :: nat
  limit :: nat

text \<open>
  \<^verbatim>\<open>class ObjectMemory\<close>: the members named in \<^verbatim>\<open>vm.cpp\<close>
  (\<^verbatim>\<open>large_object_threshold\<close>, \<^verbatim>\<open>collect_young_now\<close>, \<^verbatim>\<open>collect_mature_now\<close>), the
  two heaps, the size of a slab, the headers by address, and the number of collections
  run so far.
\<close>

record ObjectMemory =
  large_object_threshold :: "64 word"
  slab_size :: nat
  young :: region
  mature :: region
  collect_young_now :: bool
  collect_mature_now :: bool
  young_collections :: nat
  mature_collections :: nat
  objects :: object_store

text \<open>
  Modelled from the spec: \<^verbatim>\<open>ThreadNexus\<close> is missing. Section 3: one global
  stop-requested flag and a coordinator lock (here with the id of the holder).
\<close>

record ThreadNexus =
  stop :: bool
  nexus_lock :: "nat option"

datatype nexus_event = Locked nat | Yielded nat | Collected_young | Collected_mature | Unlocked

type_synonym shared_state = "ThreadNexus \<times> ObjectMemory \<times> nexus_event list"

definition stop_p :: "ThreadNexus \<Rightarrow> bool" where
  "stop_p nx = stop nx"

definition set_stop :: "ThreadNexus \<Rightarrow> ThreadNexus" where
  "set_stop nx = nx\<lparr>stop := True\<rparr>"

text \<open>
  Modelled from the spec: \<^verbatim>\<open>lock_or_yield\<close> and \<^verbatim>\<open>unlock\<close> of the nexus are missing.
  Section 4.5: the thread attempts to acquire the coordinator lock or yields; the thread
  that has acquired it releases it, which clears the stop flag.
\<close>

definition lock_or_yield :: "shared_state \<Rightarrow> nat \<Rightarrow> bool \<times> shared_state" where
  "lock_or_yield s vm_id =
     (case s of (nx, mem, es) \<Rightarrow>
        if nexus_lock nx = None
        then (True, (nx\<lparr>nexus_lock := Some vm_id\<rparr>, mem, es @ [Locked vm_id]))
        else (False, (nx, mem, es @ [Yielded vm_id])))"

definition nexus_unlock :: "shared_state \<Rightarrow> shared_state" where
  "nexus_unlock s =
     (case s of (nx, mem, es) \<Rightarrow> (nx\<lparr>stop := False, nexus_lock := None\<rparr>, mem, es @ [Unlocked]))"

text \<open>
  Modelled from the spec: \<^verbatim>\<open>ObjectMemory::collect_maybe\<close> is missing. It performs the
  pending collection (section 4.5): the young one when requested, then the mature one
  when requested (section 4.4: each has its own request flag). The copy itself is not
  modelled; a collection is counted and its request is cleared.
\<close>

definition collect_maybe :: "shared_state \<Rightarrow> shared_state" where
  "collect_maybe s =
     (case s of (nx, mem, es) \<Rightarrow>
        let (mem1, es1) =
              (if collect_young_now mem
               then (mem\<lparr>collect_young_now := False,
                          young_collections := young_collections mem + 1\<rparr>,
                     es @ [Collected_young])
               else (mem, es));
            (mem2, es2) =
              (if collect_mature_now mem1
               then (mem1\<lparr>collect_mature_now := False,
                           mature_collections := mature_collections mem1 + 1\<rparr>,
                     es1 @ [Collected_mature])
               else (mem1, es1))
        in (nx, mem2, es2))"

text \<open>\<^verbatim>\<open>VM::checkpoint\<close> for the mutator with the given id, and \<^verbatim>\<open>VM::run_gc_soon\<close>.\<close>

definition checkpoint :: "ThreadNexus \<times> ObjectMemory \<Rightarrow> nat \<Rightarrow> shared_state" where
  "checkpoint s vm_id =
     (if stop_p (fst s) then
        (case lock_or_yield (fst s, snd s, []) vm_id of
           (True, s1) \<Rightarrow> nexus_unlock (collect_maybe s1)
         | (False, s1) \<Rightarrow> s1)
      else (fst s, snd s, []))"

definition run_gc_soon :: "ThreadNexus \<times> ObjectMemory \<Rightarrow> ThreadNexus \<times> ObjectMemory" where
  "run_gc_soon s =
     (set_stop (fst s), (snd s)\<lparr>collect_young_now := True, collect_mature_now := True\<rparr>)"

subsection \<open>Allocation\<close>

text \<open>
  The members of \<^verbatim>\<open>class VM\<close> that allocation uses: the slab \<^verbatim>\<open>local_slab_\<close> and the
  object memory (\<^verbatim>\<open>om\<close> and \<^verbatim>\<open>shared.om\<close> are one object), and the class
  \<^verbatim>\<open>G(tuple)\<close> of the globals.
\<close>

record Mutator =
  local_slab :: region
  shared_om :: ObjectMemory
  G_tuple :: Object

text \<open>
  Modelled from the spec: \<^verbatim>\<open>Slab::allocate\<close> is missing. Section 4.2: it bumps the
  cursor if room remains; it returns the null address if not.
\<close>

definition slab_allocate :: "region \<Rightarrow> nat \<Rightarrow> nat \<times> region" where
  "slab_allocate s bytes =
     (if cursor s + bytes \<le> limit s then (cursor s, s\<lparr>cursor := cursor s + bytes\<rparr>)
      else (0, s))"

text \<open>
  Modelled from the spec: \<^verbatim>\<open>ObjectMemory::refill_slab\<close> is missing. Sections 3 and
  4.2: it gives the slab a fresh stretch of the shared young generation; when the young
  generation cannot give one it asks for a collection and reports failure.
\<close>

definition refill_slab :: "ObjectMemory \<Rightarrow> region \<Rightarrow> bool \<times> ObjectMemory \<times> region" where
  "refill_slab mem slab =
     (case slab_allocate (young mem) (slab_size mem) of (a, y) \<Rightarrow>
        if a \<noteq> 0
        then (True, mem\<lparr>young := y\<rparr>, \<lparr>cursor = a, limit = a + slab_size mem\<rparr>)
        else (False, mem\<lparr>collect_young_now := True\<rparr>, slab))"

text \<open>
  Modelled from the spec: \<^verbatim>\<open>ObjectMemory::new_object_typed_enduring_dirty\<close> is
  missing. Section 4.4: it allocates in the mature heap; when that is exhausted it asks
  for a mature collection and returns null.
\<close>

definition om_new_object_typed_enduring_dirty :: "ObjectMemory \<Rightarrow> Object \<Rightarrow> nat \<Rightarrow> object_type
    \<Rightarrow> nat \<times> ObjectMemory" where
  "om_new_object_typed_enduring_dirty mem cls bytes ty =
     (case slab_allocate (mature mem) bytes of (a, m) \<Rightarrow>
        if a \<noteq> 0
        then (a, mem\<lparr>mature := m, objects := init_header (objects mem) a cls MatureObjectZone ty\<rparr>)
        else (0, mem\<lparr>collect_mature_now := True\<rparr>))"

text \<open>
  Modelled from the spec: \<^verbatim>\<open>ObjectMemory::new_object_typed_dirty\<close>, the slow path,
  is missing. Sections 4.1 and 4.2: it allocates in the shared young generation; a request
  that does not fit there spills into the mature heap and a young collection is requested.
\<close>

definition om_new_object_typed_dirty :: "ObjectMemory \<Rightarrow> Object \<Rightarrow> nat \<Rightarrow> object_type
    \<Rightarrow> nat \<times> ObjectMemory" where
  "om_new_object_typed_dirty mem cls bytes ty =
     (case slab_allocate (young mem) bytes of (a, y) \<Rightarrow>
        if a \<noteq> 0
        then (a, mem\<lparr>young := y, objects := init_header (objects mem) a cls YoungObjectZone ty\<rparr>)
        else om_new_object_typed_enduring_dirty (mem\<lparr>collect_young_now := True\<rparr>) cls bytes ty)"

text \<open>
  \<^verbatim>\<open>VM::new_object_typed_dirty\<close>. A null \<^verbatim>\<open>obj\<close> is the address \<open>0\<close>. The build
  with \<^verbatim>\<open>RBX_GC_STRESS\<close> is not modelled.
\<close>

definition new_object_typed_dirty :: "Mutator \<Rightarrow> Object \<Rightarrow> 64 word \<Rightarrow> object_type
    \<Rightarrow> nat \<times> Mutator" where
  "new_object_typed_dirty m cls sz ty =
     (if sz > large_object_threshold (shared_om m) then
        (case om_new_object_typed_enduring_dirty (shared_om m) cls (unat sz) ty of
           (obj, mem1) \<Rightarrow> (obj, m\<lparr>shared_om := mem1\<rparr>))
      else
        (case slab_allocate (local_slab m) (unat sz) of (obj, slab1) \<Rightarrow>
           let m1 = m\<lparr>local_slab := slab1\<rparr>
           in
             if obj = 0 then
               (case refill_slab (shared_om m1) (local_slab m1) of (refilled, mem2, slab2) \<Rightarrow>
                  let m2 = m1\<lparr>shared_om := mem2, local_slab := slab2\<rparr>;
                      (obj2, m3) =
                        (if refilled then
                           (case slab_allocate (local_slab m2) (unat sz) of
                              (obj', slab3) \<Rightarrow> (obj', m2\<lparr>local_slab := slab3\<rparr>))
                         else (obj, m2))
                  in
                    if obj2 = 0 then
                      (case om_new_object_typed_dirty (shared_om m3) cls (unat sz) ty of
                         (obj3, mem4) \<Rightarrow> (obj3, m3\<lparr>shared_om := mem4\<rparr>))
                    else
                      (obj2, m3\<lparr>shared_om := (shared_om m3)\<lparr>objects :=
                          init_header (objects (shared_om m3)) obj2 cls YoungObjectZone ty\<rparr>\<rparr>))
             else
               (obj, m1\<lparr>shared_om := (shared_om m1)\<lparr>objects :=
                   init_header (objects (shared_om m1)) obj cls YoungObjectZone ty\<rparr>\<rparr>)))"

text \<open>
  The fast path in the words of the specification (section 4.2): a request above the
  threshold goes to the mature heap; otherwise the cursor of the slab is bumped if room
  remains; on exhaustion \<open>refill_slab\<close> is called and the slab is tried once more,
  whatever \<open>refill_slab\<close> reported; if that fails too, the slow path serves the request.
\<close>

definition local_allocate_spec :: "Mutator \<Rightarrow> Object \<Rightarrow> 64 word \<Rightarrow> object_type
    \<Rightarrow> nat \<times> Mutator" where
  "local_allocate_spec m cls sz ty =
     (if sz > large_object_threshold (shared_om m) then
        (case om_new_object_typed_enduring_dirty (shared_om m) cls (unat sz) ty of
           (obj, mem1) \<Rightarrow> (obj, m\<lparr>shared_om := mem1\<rparr>))
      else
        (case slab_allocate (local_slab m) (unat sz) of (obj, slab1) \<Rightarrow>
           if obj \<noteq> 0 then
             (obj, m\<lparr>local_slab := slab1, shared_om := (shared_om m)\<lparr>objects :=
                 init_header (objects (shared_om m)) obj cls YoungObjectZone ty\<rparr>\<rparr>)
           else
             (case refill_slab (shared_om m) slab1 of (refilled, mem2, slab2) \<Rightarrow>
                (case slab_allocate slab2 (unat sz) of (obj2, slab3) \<Rightarrow>
                   if obj2 \<noteq> 0 then
                     (obj2, m\<lparr>local_slab := slab3, shared_om := mem2\<lparr>objects :=
                         init_header (objects mem2) obj2 cls YoungObjectZone ty\<rparr>\<rparr>)
                   else
                     (case om_new_object_typed_dirty mem2 cls (unat sz) ty of
                        (obj3, mem4) \<Rightarrow> (obj3, m\<lparr>local_slab := slab3, shared_om := mem4\<rparr>))))))"

text \<open>
  \<^verbatim>\<open>VM::new_young_tuple_dirty\<close>. \<^verbatim>\<open>Tuple::fields_offset\<close> and \<^verbatim>\<open>sizeof(Object*)\<close>
  are parameters; the byte size is computed in \<^verbatim>\<open>size_t\<close> and wraps around.
\<close>

record tuple_layout =
  fields_offset :: "64 word"
  sizeof_pointer :: "64 word"

definition tuple_bytes :: "tuple_layout \<Rightarrow> 64 word \<Rightarrow> 64 word" where
  "tuple_bytes lay nfields = fields_offset lay + sizeof_pointer lay * nfields"

definition new_young_tuple_dirty :: "tuple_layout \<Rightarrow> Mutator \<Rightarrow> 64 word \<Rightarrow> nat \<times> Mutator" where
  "new_young_tuple_dirty lay m nfields =
     (let bytes = tuple_bytes lay nfields
      in
        if bytes > large_object_threshold (shared_om m) then (0, m)
        else
          (case slab_allocate (local_slab m) (unat bytes) of (tup, slab1) \<Rightarrow>
             let m1 = m\<lparr>local_slab := slab1\<rparr>
             in
               if tup = 0 then
                 (case refill_slab (shared_om m1) (local_slab m1) of (refilled, mem2, slab2) \<Rightarrow>
                    let m2 = m1\<lparr>shared_om := mem2, local_slab := slab2\<rparr>;
                        (tup2, m3) =
                          (if refilled then
                             (case slab_allocate (local_slab m2) (unat bytes) of
                                (tup', slab3) \<Rightarrow> (tup', m2\<lparr>local_slab := slab3\<rparr>))
                           else (tup, m2))
                    in
                      if tup2 = 0 then (0, m3)
                      else
                        (tup2, m3\<lparr>shared_om := (shared_om m3)\<lparr>objects :=
                            set_full_size
                              (init_header (objects (shared_om m3)) tup2 (G_tuple m3)
                                 YoungObjectZone TupleType)
                              tup2 bytes\<rparr>\<rparr>))
               else
                 (tup, m1\<lparr>shared_om := (shared_om m1)\<lparr>objects :=
                     set_full_size
                       (init_header (objects (shared_om m1)) tup (G_tuple m1)
                          YoungObjectZone TupleType)
                       tup bytes\<rparr>\<rparr>)))"

text \<open>A concrete mutator: a slab of 64 bytes at address 4096 in a young generation.\<close>

definition example_om :: ObjectMemory where
  "example_om = \<lparr>large_object_threshold = 2700, slab_size = 64,
     young = \<lparr>cursor = 4160, limit = 4288\<rparr>, mature = \<lparr>cursor = 65536, limit = 131072\<rparr>,
     collect_young_now = False, collect_mature_now = False,
     young_collections = 0, mature_collections = 0,
     objects = (\<lambda>a. \<lparr>header_klass = cNil, header_zone = UnspecifiedZone,
                     header_type = ObjectType, full_size = 0\<rparr>)\<rparr>"

definition example_mutator :: Mutator where
  "example_mutator = \<lparr>local_slab = \<lparr>cursor = 4096, limit = 4160\<rparr>, shared_om = example_om,
     G_tuple = HeapRef 512\<rparr>"

definition example_tuple_layout :: tuple_layout where
  "example_tuple_layout = \<lparr>fields_offset = 32, sizeof_pointer = 8\<rparr>"

definition idle_nexus :: ThreadNexus where
  "idle_nexus = \<lparr>stop = False, nexus_lock = None\<rparr>"

section \<open>Properties of object creation\<close>

lemma set_fields_nil_eq:
  "0 \<le> i \<Longrightarrow>
   set_fields_nil mem a i nfields =
     mem(a := (mem a)\<lparr>field :=
       (\<lambda>j. if i \<le> int j \<and> int j < nfields then Qnil else field (mem a) j)\<rparr>)"
proof (induction mem a i nfields rule: set_fields_nil.induct)
  case (1 mem a i nfields)
  show ?case
  proof (cases "i < nfields")
    case False
    then have "(\<lambda>j. if i \<le> int j \<and> int j < nfields then Qnil else field (mem a) j)
               = field (mem a)"
      by (auto simp: fun_eq_iff)
    with False show ?thesis
      by (simp add: set_fields_nil.simps [of mem a i nfields])
  next
    case True
    have step: "set_fields_nil mem a i nfields
          = set_fields_nil (rbs_set_field mem a (nat i) Qnil) a (i + 1) nfields"
      using True by (simp add: set_fields_nil.simps [of mem a i nfields])
    have "0 \<le> i + 1" using "1.prems" by simp
    note ih = "1.IH" [OF True this]
    have slots: "(\<lambda>j. if i + 1 \<le> int j \<and> int j < nfields then Qnil
               else ((field (mem a))(nat i := Qnil)) j)
          = (\<lambda>j. if i \<le> int j \<and> int j < nfields then Qnil else field (mem a) j)"
      using True "1.prems" by (auto simp: fun_eq_iff)
    have e: "field (rbs_set_field mem a (nat i) Qnil a) = (field (mem a))(nat i := Qnil)"
      by (simp add: rbs_set_field_def)
    have "set_fields_nil mem a i nfields
          = (rbs_set_field mem a (nat i) Qnil)
              (a := (rbs_set_field mem a (nat i) Qnil a)\<lparr>field :=
                 (\<lambda>j. if i \<le> int j \<and> int j < nfields then Qnil else field (mem a) j)\<rparr>)"
      unfolding step ih e slots ..
    then show ?thesis
      by (simp add: rbs_set_field_def)
  qed
qed

lemma place_object_frame:
  "place_object om sz = Inr (a, om1) \<Longrightarrow>
     memory om1 = memory om \<and> last_object_id om1 = last_object_id om"
  by (auto simp: place_object_def baker_gc_allocate_def baker_gc_allocate_spilled_def
        heap_allocate_def split: if_splits)

lemma init_object_record:
  assumes "init_object lay om a cls nfields = (obj, om')"
  shows "obj = Reference a"
    and "klass (memory om' a) = cls"
    and "num_fields (memory om' a) = nfields"
    and "flags (memory om' a) =
           (if REFERENCE_P cls then FIXNUM_TO_INT lay (NTH_FIELD (memory om) cls 8) else 0)"
    and "flags2 (memory om' a) = 0"
    and "gc_zone (memory om' a) = GC_YOUNG_OBJECTS"
    and "hash (memory om' a) = last_object_id om"
    and "int j < nfields \<Longrightarrow> field (memory om' a) j = Qnil"
    and "last_object_id om' = last_object_id om + 1"
  using assms
  by (auto simp: init_object_def Let_def write_header_def set_fields_nil_eq
        REFERENCE_P_def NTH_FIELD_def split: OBJECT.splits)

lemma new_object_cases:
  assumes "om_inline_new_object lay om cls nfields = Inr (obj, om')"
  obtains a om1 where
    "place_object om ((HEADER_SIZE lay + nfields) * REFSIZE lay) = Inr (a, om1)"
    and "init_object lay om1 a cls nfields = (obj, om')"
  using assms
  by (auto simp: om_inline_new_object_def split: if_splits sum.splits)

lemma new_object_returns:
  assumes "c_int (HEADER_SIZE lay + nfields)"
    and "c_int ((HEADER_SIZE lay + nfields) * REFSIZE lay)"
    and "place_object om ((HEADER_SIZE lay + nfields) * REFSIZE lay) = Inr (a, om1)"
  shows "om_inline_new_object lay om cls nfields = Inr (init_object lay om1 a cls nfields)"
  using assms by (simp add: om_inline_new_object_def)

lemma new_object_returns_from_current:
  assumes "c_int (HEADER_SIZE lay + nfields)"
    and "c_int ((HEADER_SIZE lay + nfields) * REFSIZE lay)"
    and "heap_enough_space_p (current (gc om)) ((HEADER_SIZE lay + nfields) * REFSIZE lay)"
  shows "\<exists>obj om'. om_inline_new_object lay om cls nfields = Inr (obj, om')"
proof -
  from assms(3) obtain a om1 where
    "place_object om ((HEADER_SIZE lay + nfields) * REFSIZE lay) = Inr (a, om1)"
    by (simp add: place_object_def baker_gc_allocate_def heap_allocate_def)
  with assms have "om_inline_new_object lay om cls nfields
                     = Inr (init_object lay om1 a cls nfields)"
    by (simp add: new_object_returns)
  then show ?thesis
    by (cases "init_object lay om1 a cls nfields") simp
qed

lemma new_object_record:
  assumes "om_inline_new_object lay om cls nfields = Inr (obj, om')"
  shows "\<exists>a. obj = Reference a
           \<and> num_fields (memory om' a) = nfields
           \<and> (\<forall>j. int j < nfields \<longrightarrow> field (memory om' a) j = Qnil)
           \<and> (\<forall>c n. cls = Reference c \<and> field (memory om c) 8 = Fixnum n
                 \<longrightarrow> flags (memory om' a) = n)
           \<and> (\<forall>c. cls = Reference c
                 \<longrightarrow> flags (memory om' a) = FIXNUM_TO_INT lay (field (memory om c) 8))
           \<and> (\<not> REFERENCE_P cls \<longrightarrow> flags (memory om' a) = 0)
           \<and> flags2 (memory om' a) = 0
           \<and> gc_zone (memory om' a) = GC_YOUNG_OBJECTS"
proof -
  from assms obtain a om1 where
    placed: "place_object om ((HEADER_SIZE lay + nfields) * REFSIZE lay) = Inr (a, om1)"
    and init: "init_object lay om1 a cls nfields = (obj, om')"
    by (rule new_object_cases)
  have mem: "memory om1 = memory om"
    using place_object_frame [OF placed] by simp
  note r = init_object_record [OF init]
  have "flags (memory om' a) =
          (if REFERENCE_P cls then FIXNUM_TO_INT lay (NTH_FIELD (memory om) cls 8) else 0)"
    using r(4) mem by simp
  then have fl: "(\<forall>c n. cls = Reference c \<and> field (memory om c) 8 = Fixnum n
                 \<longrightarrow> flags (memory om' a) = n)
           \<and> (\<forall>c. cls = Reference c
                 \<longrightarrow> flags (memory om' a) = FIXNUM_TO_INT lay (field (memory om c) 8))
           \<and> (\<not> REFERENCE_P cls \<longrightarrow> flags (memory om' a) = 0)"
    by (auto simp: REFERENCE_P_def NTH_FIELD_def FIXNUM_TO_INT_def)
  show ?thesis
    using r(1) r(3) r(5) r(6) r(8) fl by blast
qed

text \<open>
  Claim C1. For every class reference and every field count, a call of
  \<open>om_inline_new_object\<close> whose size is computed without overflow and fits in the current
  space returns; and whenever a call returns (from the current space or spilled), the
  result is a reference to a record whose field count is the one requested, whose slots
  below the field count all hold the nil sentinel, whose flags are the fixnum read from
  slot 8 of the class when the class is a heap reference and zero when it is not (the
  null pointer included), whose second flags word is zero and whose zone is the young one.
\<close>

theorem allocate_initialises_record:
  "(c_int (HEADER_SIZE lay + nfields)
      \<and> c_int ((HEADER_SIZE lay + nfields) * REFSIZE lay)
      \<and> heap_enough_space_p (current (gc om)) ((HEADER_SIZE lay + nfields) * REFSIZE lay)
      \<longrightarrow> (\<exists>obj om'. om_inline_new_object lay om cls nfields = Inr (obj, om')))
   \<and> (\<forall>obj om'. om_inline_new_object lay om cls nfields = Inr (obj, om') \<longrightarrow>
         (\<exists>a. obj = Reference a
           \<and> num_fields (memory om' a) = nfields
           \<and> (\<forall>j. int j < nfields \<longrightarrow> field (memory om' a) j = Qnil)
           \<and> (\<forall>c n. cls = Reference c \<and> field (memory om c) 8 = Fixnum n
                 \<longrightarrow> flags (memory om' a) = n)
           \<and> (\<forall>c. cls = Reference c
                 \<longrightarrow> flags (memory om' a) = FIXNUM_TO_INT lay (field (memory om c) 8))
           \<and> (\<not> REFERENCE_P cls \<longrightarrow> flags (memory om' a) = 0)
           \<and> flags2 (memory om' a) = 0
           \<and> gc_zone (memory om' a) = GC_YOUNG_OBJECTS))"
  using new_object_returns_from_current [of lay nfields om cls]
    new_object_record [of lay om cls nfields]
  by blast

theorem allocate_initialises_record_witness:
  "(\<exists>obj om'. om_inline_new_object example_layout (example_memory 0 0) (Reference 100) 2
                 = Inr (obj, om')
      \<and> (\<exists>a. obj = Reference a \<and> num_fields (memory om' a) = 2
           \<and> field (memory om' a) 0 = Qnil \<and> field (memory om' a) 1 = Qnil
           \<and> flags (memory om' a) = 5 \<and> flags2 (memory om' a) = 0
           \<and> gc_zone (memory om' a) = GC_YOUNG_OBJECTS))
   \<and> (\<exists>obj om'. om_inline_new_object example_layout (example_memory 0 0) NULL_OBJECT 1
                 = Inr (obj, om')
      \<and> (\<exists>a. obj = Reference a \<and> num_fields (memory om' a) = 1
           \<and> field (memory om' a) 0 = Qnil
           \<and> flags (memory om' a) = 0 \<and> flags2 (memory om' a) = 0
           \<and> gc_zone (memory om' a) = GC_YOUNG_OBJECTS))"
proof (rule conjI)
  note t = allocate_initialises_record [of example_layout 2 "example_memory 0 0" "Reference 100"]
  have "c_int (HEADER_SIZE example_layout + 2)
      \<and> c_int ((HEADER_SIZE example_layout + 2) * REFSIZE example_layout)
      \<and> heap_enough_space_p (current (gc (example_memory 0 0)))
           ((HEADER_SIZE example_layout + 2) * REFSIZE example_layout)"
    by (simp add: example_layout_def c_int_def example_memory_def heap_enough_space_p_def)
  with t obtain obj om' where
    run: "om_inline_new_object example_layout (example_memory 0 0) (Reference 100) 2
            = Inr (obj, om')"
    by blast
  have cls: "field (memory (example_memory 0 0) 100) 8 = Fixnum 5"
    by (simp add: example_memory_def example_class_def)
  from t run cls
  obtain a where "obj = Reference a" "num_fields (memory om' a) = 2"
    "\<forall>j. int j < 2 \<longrightarrow> field (memory om' a) j = Qnil"
    "flags (memory om' a) = 5" "flags2 (memory om' a) = 0"
    "gc_zone (memory om' a) = GC_YOUNG_OBJECTS"
    by blast
  then have "obj = Reference a \<and> num_fields (memory om' a) = 2
          \<and> field (memory om' a) 0 = Qnil \<and> field (memory om' a) 1 = Qnil
          \<and> flags (memory om' a) = 5 \<and> flags2 (memory om' a) = 0
          \<and> gc_zone (memory om' a) = GC_YOUNG_OBJECTS"
    by simp
  with run show "\<exists>obj om'. om_inline_new_object example_layout (example_memory 0 0) (Reference 100) 2
                 = Inr (obj, om')
      \<and> (\<exists>a. obj = Reference a \<and> num_fields (memory om' a) = 2
           \<and> field (memory om' a) 0 = Qnil \<and> field (memory om' a) 1 = Qnil
           \<and> flags (memory om' a) = 5 \<and> flags2 (memory om' a) = 0
           \<and> gc_zone (memory om' a) = GC_YOUNG_OBJECTS)"
    by blast
next
  note t = allocate_initialises_record [of example_layout 1 "example_memory 0 0" NULL_OBJECT]
  have "c_int (HEADER_SIZE example_layout + 1)
      \<and> c_int ((HEADER_SIZE example_layout + 1) * REFSIZE example_layout)
      \<and> heap_enough_space_p (current (gc (example_memory 0 0)))
           ((HEADER_SIZE example_layout + 1) * REFSIZE example_layout)"
    by (simp add: example_layout_def c_int_def example_memory_def heap_enough_space_p_def)
  with t obtain obj om' where
    run: "om_inline_new_object example_layout (example_memory 0 0) NULL_OBJECT 1
            = Inr (obj, om')"
    by blast
  have cls: "\<not> REFERENCE_P NULL_OBJECT"
    by (simp add: REFERENCE_P_def)
  from t run cls
  obtain a where "obj = Reference a" "num_fields (memory om' a) = 1"
    "\<forall>j. int j < 1 \<longrightarrow> field (memory om' a) j = Qnil"
    "flags (memory om' a) = 0" "flags2 (memory om' a) = 0"
    "gc_zone (memory om' a) = GC_YOUNG_OBJECTS"
    by blast
  then have "obj = Reference a \<and> num_fields (memory om' a) = 1
          \<and> field (memory om' a) 0 = Qnil
          \<and> flags (memory om' a) = 0 \<and> flags2 (memory om' a) = 0
          \<and> gc_zone (memory om' a) = GC_YOUNG_OBJECTS"
    by simp
  with run show "\<exists>obj om'. om_inline_new_object example_layout (example_memory 0 0) NULL_OBJECT 1
                 = Inr (obj, om')
      \<and> (\<exists>a. obj = Reference a \<and> num_fields (memory om' a) = 1
           \<and> field (memory om' a) 0 = Qnil
           \<and> flags (memory om' a) = 0 \<and> flags2 (memory om' a) = 0
           \<and> gc_zone (memory om' a) = GC_YOUNG_OBJECTS)"
    by blast
qed

subsection \<open>The spill path\<close>

text \<open>
  The source allocates in the next space first and evaluates its \<^verbatim>\<open>assert\<close> afterwards,
  on the cursor the allocation has already advanced. The spill therefore returns exactly
  when the next space had room for twice the size.
\<close>

lemma spill_outcome:
  assumes "\<not> heap_enough_space_p (current (gc om)) sz"
  shows "place_object om sz =
     (if heap_current (next (gc om)) + 2 * sz \<le> heap_last (next (gc om))
      then Inr (heap_current (next (gc om)),
                om\<lparr>gc := (gc om)\<lparr>next := (next (gc om))
                       \<lparr>heap_current := heap_current (next (gc om)) + sz\<rparr>\<rparr>,
                   collect_now := collect_now om OR 1\<rparr>)
      else Inl AssertionFailed)"
  using assms
  by (simp add: place_object_def baker_gc_allocate_spilled_def heap_allocate_def
        heap_enough_space_p_def)

text \<open>
  Claim C2. The claim lets every request that does not fit in the current space and fits
  in the next one return a record, with the collection flag raised. The code does so only
  when the next space has room for the request twice (\<open>spill_succeeds\<close> below); a
  request that fits in the next space, but not twice, ends in the failed assertion, as does
  one that does not fit in the next space at all.
\<close>

theorem spill_without_double_room_is_fatal:
  assumes "c_int (HEADER_SIZE lay + nfields)"
    and "c_int ((HEADER_SIZE lay + nfields) * REFSIZE lay)"
    and "\<not> heap_enough_space_p (current (gc om)) ((HEADER_SIZE lay + nfields) * REFSIZE lay)"
    and "heap_enough_space_p (next (gc om)) ((HEADER_SIZE lay + nfields) * REFSIZE lay)"
    and "heap_last (next (gc om))
           < heap_current (next (gc om)) + 2 * ((HEADER_SIZE lay + nfields) * REFSIZE lay)"
  shows "om_inline_new_object lay om cls nfields = Inl AssertionFailed"
  using assms by (simp add: om_inline_new_object_def spill_outcome)

theorem spill_without_double_room_is_fatal_witness:
  "\<not> heap_enough_space_p (current (gc (example_memory 990 970))) 24
   \<and> heap_enough_space_p (next (gc (example_memory 990 970))) 24
   \<and> om_inline_new_object example_layout (example_memory 990 970) (Reference 100) 2
       = Inl AssertionFailed"
proof -
  have a: "c_int (HEADER_SIZE example_layout + 2)"
    and b: "c_int ((HEADER_SIZE example_layout + 2) * REFSIZE example_layout)"
    by (simp_all add: example_layout_def c_int_def)
  have sz: "(HEADER_SIZE example_layout + 2) * REFSIZE example_layout = 24"
    by (simp add: example_layout_def)
  have c: "\<not> heap_enough_space_p (current (gc (example_memory 990 970))) 24"
    and d: "heap_enough_space_p (next (gc (example_memory 990 970))) 24"
    and e: "heap_last (next (gc (example_memory 990 970)))
              < heap_current (next (gc (example_memory 990 970))) + 2 * 24"
    by (simp_all add: example_memory_def heap_enough_space_p_def)
  show ?thesis
    using spill_without_double_room_is_fatal [of example_layout 2 "example_memory 990 970" "Reference 100"]
      a b c d e unfolding sz by simp
qed

lemma spill_succeeds:
  assumes "c_int (HEADER_SIZE lay + nfields)"
    and "c_int ((HEADER_SIZE lay + nfields) * REFSIZE lay)"
    and "\<not> heap_enough_space_p (current (gc om)) ((HEADER_SIZE lay + nfields) * REFSIZE lay)"
    and "heap_current (next (gc om)) + 2 * ((HEADER_SIZE lay + nfields) * REFSIZE lay)
           \<le> heap_last (next (gc om))"
  shows "\<exists>om'. om_inline_new_object lay om cls nfields
            = Inr (Reference (heap_current (next (gc om))), om')
          \<and> bit (collect_now om') 0
          \<and> current (gc om') = current (gc om)
          \<and> heap_current (next (gc om'))
              = heap_current (next (gc om)) + (HEADER_SIZE lay + nfields) * REFSIZE lay"
  using assms
  by (simp add: om_inline_new_object_def spill_outcome init_object_def Let_def bit_or_iff)

subsection \<open>Identity values\<close>

lemma new_object_identity:
  assumes "om_inline_new_object lay om cls nfields = Inr (obj, om')"
  shows "identity_of om' obj = last_object_id om"
    and "last_object_id om' = last_object_id om + 1"
proof -
  from assms obtain a om1 where
    placed: "place_object om ((HEADER_SIZE lay + nfields) * REFSIZE lay) = Inr (a, om1)"
    and init: "init_object lay om1 a cls nfields = (obj, om')"
    by (rule new_object_cases)
  have "last_object_id om1 = last_object_id om"
    using place_object_frame [OF placed] by simp
  with init_object_record [OF init]
  show "identity_of om' obj = last_object_id om"
    and "last_object_id om' = last_object_id om + 1"
    by (simp_all add: identity_of_def)
qed

lemma om_run_identities:
  "om_run lay om rs = Inr (ids, om') \<Longrightarrow>
     last_object_id om' = last_object_id om + of_nat (length ids)
     \<and> (\<forall>k < length ids. ids ! k = last_object_id om + of_nat k)"
proof (induction rs arbitrary: om ids)
  case Nil
  then show ?case by simp
next
  case (Cons r rs)
  show ?case
  proof (cases r)
    case (Collection g m)
    with Cons.prems have "om_run lay (collected om g m) rs = Inr (ids, om')"
      by simp
    from Cons.IH [OF this] show ?thesis
      by (simp add: collected_def)
  next
    case (New_Object cls nfields)
    with Cons.prems obtain obj om1 ids1 where
      new: "om_inline_new_object lay om cls nfields = Inr (obj, om1)"
      and rest: "om_run lay om1 rs = Inr (ids1, om')"
      and ids: "ids = identity_of om1 obj # ids1"
      by (auto split: sum.splits)
    note id = new_object_identity [OF new]
    note ih = Cons.IH [OF rest]
    have last: "last_object_id om' = last_object_id om + of_nat (length ids)"
      using ih id ids by simp
    have "ids ! k = last_object_id om + of_nat k" if "k < length ids" for k
    proof (cases k)
      case 0
      with ids id show ?thesis by simp
    next
      case (Suc k')
      with that ids have "k' < length ids1" by simp
      with ih have "ids1 ! k' = last_object_id om1 + of_nat k'" by simp
      with Suc ids id show ?thesis by simp
    qed
    with last show ?thesis by simp
  qed
qed

lemma unat_identity:
  fixes l :: "32 word"
  assumes "unat l + k < 2 ^ 32"
  shows "unat (l + of_nat k) = unat l + k"
proof -
  have k: "unat (of_nat k :: 32 word) = k"
    using assms by (simp add: unat_of_nat)
  with assms have "unat l + unat (of_nat k :: 32 word) < 2 ^ LENGTH(32)"
    by simp
  then have "unat (l + of_nat k) = unat l + unat (of_nat k :: 32 word)"
    by (simp only: unat_add_lem)
  with k show ?thesis by simp
qed

text \<open>
  The claim C5 as it is written fails: the counter is a machine integer. Two allocations
  against an object memory whose counter stands at \<open>2 ^ 32 - 1\<close> are given the identities
  \<open>4294967295\<close> and \<open>0\<close>, and the later one is not the greater.
\<close>

theorem identity_counter_wraps_counterexample:
  "map_sum id fst
     (om_run example_layout ((example_memory 0 0)\<lparr>last_object_id := 4294967295\<rparr>)
        [New_Object NULL_OBJECT 0, New_Object NULL_OBJECT 0])
     = Inr [4294967295, 0]
   \<and> \<not> ([4294967295, 0 :: 32 word] ! 0 < [4294967295, 0] ! 1)"
  by (simp add: om_inline_new_object_def example_layout_def c_int_def place_object_def
        example_memory_def heap_enough_space_p_def baker_gc_allocate_def heap_allocate_def
        init_object_def Let_def write_header_def set_fields_nil_eq identity_of_def)

text \<open>
  Claim C5, amended. In a run of allocations and collections against one object memory
  during which the 32-bit identity counter does not wrap around, the identity value given
  to a later allocation is strictly greater than the one given to an earlier allocation,
  and no identity value is given twice.
\<close>

theorem identity_values_increase_until_wrap:
  assumes "om_run lay om rs = Inr (ids, om')"
    and "unat (last_object_id om) + length ids \<le> 2 ^ 32"
  shows "(\<forall>i j. i < j \<and> j < length ids \<longrightarrow> ids ! i < ids ! j) \<and> distinct ids"
proof -
  note run = om_run_identities [OF assms(1)]
  have u: "unat (ids ! k) = unat (last_object_id om) + k" if "k < length ids" for k
  proof -
    from that assms(2) have "unat (last_object_id om) + k < 2 ^ 32" by simp
    then have "unat (last_object_id om + of_nat k) = unat (last_object_id om) + k"
      by (rule unat_identity)
    with run that show ?thesis by simp
  qed
  have incr: "ids ! i < ids ! j" if "i < j" and "j < length ids" for i j
  proof -
    from that have "unat (ids ! i) < unat (ids ! j)"
      by (simp add: u)
    then show ?thesis
      by (simp add: word_less_nat_alt)
  qed
  then have "sorted_wrt (<) ids"
    by (simp add: sorted_wrt_iff_nth_less)
  then have "distinct ids"
    by (simp add: strict_sorted_iff)
  with incr show ?thesis by blast
qed

lemma example_run:
  "\<exists>om'. om_run example_layout (example_memory 0 0)
      [New_Object (Reference 100) 2,
       Collection \<lparr>current = \<lparr>heap_current = 2000, heap_last = 3000\<rparr>,
                    next = \<lparr>heap_current = 1000, heap_last = 2000\<rparr>\<rparr>
                  (\<lambda>a. blank_object),
       New_Object NULL_OBJECT 0] = Inr ([7, 8], om')"
  by (simp add: om_inline_new_object_def example_layout_def c_int_def place_object_def
        example_memory_def heap_enough_space_p_def baker_gc_allocate_def heap_allocate_def
        init_object_def Let_def write_header_def set_fields_nil_eq identity_of_def
        collected_def)

theorem identity_values_increase_until_wrap_witness:
  "\<exists>om'. om_run example_layout (example_memory 0 0)
      [New_Object (Reference 100) 2,
       Collection \<lparr>current = \<lparr>heap_current = 2000, heap_last = 3000\<rparr>,
                    next = \<lparr>heap_current = 1000, heap_last = 2000\<rparr>\<rparr>
                  (\<lambda>a. blank_object),
       New_Object NULL_OBJECT 0] = Inr ([7, 8], om')
     \<and> unat (last_object_id (example_memory 0 0)) + length [7, 8 :: 32 word] \<le> 2 ^ 32
     \<and> [7, 8 :: 32 word] ! 0 < [7, 8] ! 1 \<and> distinct [7, 8 :: 32 word]"
proof -
  from example_run obtain om' where
    run: "om_run example_layout (example_memory 0 0)
      [New_Object (Reference 100) 2,
       Collection \<lparr>current = \<lparr>heap_current = 2000, heap_last = 3000\<rparr>,
                    next = \<lparr>heap_current = 1000, heap_last = 2000\<rparr>\<rparr>
                  (\<lambda>a. blank_object),
       New_Object NULL_OBJECT 0] = Inr ([7, 8], om')"
    by blast
  have room: "unat (last_object_id (example_memory 0 0)) + length [7, 8 :: 32 word] \<le> 2 ^ 32"
    by (simp add: example_memory_def)
  from identity_values_increase_until_wrap [OF run room]
  have "[7, 8 :: 32 word] ! 0 < [7, 8] ! 1 \<and> distinct [7, 8 :: 32 word]"
    by simp
  with run room show ?thesis by blast
qed

section \<open>Properties of waiting and waking\<close>

lemma unlocked_vm: "\<not> interrupt_lock vm \<Longrightarrow> vm\<lparr>interrupt_lock := False\<rparr> = vm"
  by (cases vm) simp

lemma unlocked_wait_vm: "\<not> wait_lock vm \<Longrightarrow> vm\<lparr>wait_lock := False\<rparr> = vm"
  by (cases vm) simp

lemma wait_on_channel_eq:
  "\<not> interrupt_lock vm \<Longrightarrow>
     wait_on_channel vm chan = Some (vm\<lparr>sleep := cTrue, waiting_channel := chan\<rparr>)"
  by (cases vm) (simp add: wait_on_channel_def lock_interrupt_def unlock_interrupt_def Let_def)

lemma wait_on_inflated_lock_eq:
  "\<not> wait_lock vm \<Longrightarrow> wait_on_inflated_lock vm obj = Some (vm\<lparr>waiting_object := obj\<rparr>)"
  by (cases vm) (simp add: wait_on_inflated_lock_def lock_wait_def unlock_wait_def)

lemma wait_on_custom_function_eq:
  "\<not> wait_lock vm \<Longrightarrow>
     wait_on_custom_function vm func data
       = Some (vm\<lparr>custom_wakeup := func, custom_wakeup_data := data\<rparr>)"
  by (cases vm) (simp add: wait_on_custom_function_def lock_wait_def unlock_wait_def)

text \<open>
  The claim C3 as it is written fails: a registration leaves the other kinds in place. A
  mutator blocked on an object that registers a channel waits on both; so does one with
  a channel that registers an object, or a callback.
\<close>

theorem registration_keeps_other_kinds_counterexample:
  "map_option wait_kinds (wait_on_channel (idle_vm\<lparr>waiting_object := HeapRef 5\<rparr>) (HeapRef 9))
     = Some [On_channel, On_object]
   \<and> map_option wait_kinds (wait_on_inflated_lock (idle_vm\<lparr>waiting_channel := HeapRef 9\<rparr>) (HeapRef 5))
     = Some [On_channel, On_object]
   \<and> map_option wait_kinds (wait_on_custom_function (idle_vm\<lparr>waiting_channel := HeapRef 9\<rparr>) 3 4)
     = Some [On_channel, On_custom]"
  by (simp add: wait_on_channel_def wait_on_inflated_lock_def wait_on_custom_function_def
        lock_interrupt_def unlock_interrupt_def lock_wait_def unlock_wait_def Let_def
        idle_vm_def wait_kinds_def nil_p_def)

text \<open>
  Claim C3, amended. Each of \<open>wait_on_channel\<close>, \<open>wait_on_inflated_lock\<close> and
  \<open>wait_on_custom_function\<close> sets the fields of its own kind and leaves the fields of
  every other kind as they were; none of them clears anything. So at most one kind is
  active after the call when no kind was active before it.
\<close>

theorem registration_sets_own_kind_only:
  assumes "\<not> interrupt_lock vm" and "\<not> wait_lock vm"
  shows "\<exists>vm1 vm2 vm3.
       wait_on_channel vm chan = Some vm1
     \<and> waiting_channel vm1 = chan \<and> parked vm1 = parked vm
     \<and> waiting_object vm1 = waiting_object vm
     \<and> custom_wakeup vm1 = custom_wakeup vm \<and> custom_wakeup_data vm1 = custom_wakeup_data vm
     \<and> wait_on_inflated_lock vm obj = Some vm2
     \<and> waiting_object vm2 = obj \<and> parked vm2 = parked vm
     \<and> waiting_channel vm2 = waiting_channel vm
     \<and> custom_wakeup vm2 = custom_wakeup vm \<and> custom_wakeup_data vm2 = custom_wakeup_data vm
     \<and> wait_on_custom_function vm func data = Some vm3
     \<and> custom_wakeup vm3 = func \<and> custom_wakeup_data vm3 = data \<and> parked vm3 = parked vm
     \<and> waiting_channel vm3 = waiting_channel vm \<and> waiting_object vm3 = waiting_object vm
     \<and> (wait_kinds vm = [] \<longrightarrow>
           length (wait_kinds vm1) \<le> 1 \<and> length (wait_kinds vm2) \<le> 1
           \<and> length (wait_kinds vm3) \<le> 1)"
  using assms
  by (simp add: wait_on_channel_eq wait_on_inflated_lock_eq wait_on_custom_function_eq
        wait_kinds_def split: if_splits)

theorem registration_sets_own_kind_only_witness:
  "\<exists>vm1 vm2 vm3.
       wait_on_channel idle_vm (HeapRef 9) = Some vm1 \<and> wait_kinds vm1 = [On_channel]
     \<and> wait_on_inflated_lock idle_vm (HeapRef 5) = Some vm2 \<and> wait_kinds vm2 = [On_object]
     \<and> wait_on_custom_function idle_vm 3 4 = Some vm3 \<and> wait_kinds vm3 = [On_custom]"
proof -
  have free: "\<not> interrupt_lock idle_vm" "\<not> wait_lock idle_vm"
    by (simp_all add: idle_vm_def)
  from registration_sets_own_kind_only [OF free, of "HeapRef 9" "HeapRef 5" 3 4]
  obtain vm1 vm2 vm3 where
    "wait_on_channel idle_vm (HeapRef 9) = Some vm1"
    "waiting_channel vm1 = HeapRef 9" "parked vm1 = parked idle_vm"
    "waiting_object vm1 = waiting_object idle_vm" "custom_wakeup vm1 = custom_wakeup idle_vm"
    "wait_on_inflated_lock idle_vm (HeapRef 5) = Some vm2"
    "waiting_object vm2 = HeapRef 5" "parked vm2 = parked idle_vm"
    "waiting_channel vm2 = waiting_channel idle_vm" "custom_wakeup vm2 = custom_wakeup idle_vm"
    "wait_on_custom_function idle_vm 3 4 = Some vm3"
    "custom_wakeup vm3 = 3" "parked vm3 = parked idle_vm"
    "waiting_channel vm3 = waiting_channel idle_vm" "waiting_object vm3 = waiting_object idle_vm"
    by blast
  then show ?thesis
    by (simp add: wait_kinds_def idle_vm_def nil_p_def)
qed

text \<open>
  The claim C4 as it is written fails: \<open>wakeup\<close> raises the check-local-interrupts flag
  before it looks at the wait record, so a call on a mutator with no wait (and the flag
  down) reports failure and leaves a changed state.
\<close>

theorem wakeup_sets_interrupt_check_counterexample:
  "wakeup idle_vm
     = Some (False, idle_vm\<lparr>check_local_interrupts := True\<rparr>, [Lock_interrupt, Unlock_interrupt])
   \<and> idle_vm\<lparr>check_local_interrupts := True\<rparr> \<noteq> idle_vm
   \<and> wait_kinds idle_vm = [] \<and> \<not> interrupt_with_signal idle_vm"
  by (simp add: wakeup_def lock_interrupt_def unlock_interrupt_def set_check_local_interrupts_def
        Let_def idle_vm_def wait_kinds_def nil_p_def)

lemma no_wait_kinds:
  "wait_kinds vm = [] \<longleftrightarrow>
     \<not> parked vm \<and> nil_p (waiting_channel vm) \<and> nil_p (waiting_object vm) \<and> custom_wakeup vm = 0"
  by (simp add: wait_kinds_def)

lemma only_parked:
  "wait_kinds vm = [Parked_token] \<longleftrightarrow>
     parked vm \<and> nil_p (waiting_channel vm) \<and> nil_p (waiting_object vm) \<and> custom_wakeup vm = 0"
  by (simp add: wait_kinds_def)

lemma wakeup_idle:
  assumes "\<not> interrupt_lock vm" and "wait_kinds vm = []" and "\<not> interrupt_with_signal vm"
  shows "wakeup vm
     = Some (False, vm\<lparr>check_local_interrupts := True\<rparr>, [Lock_interrupt, Unlock_interrupt])"
  using assms unfolding no_wait_kinds
  by (cases vm) (simp add: wakeup_def lock_interrupt_def unlock_interrupt_def
        set_check_local_interrupts_def Let_def)

lemma wakeup_parked:
  assumes "\<not> interrupt_lock vm" and "parked vm"
  shows "wakeup vm
     = Some (True, vm\<lparr>check_local_interrupts := True, parked := False\<rparr>,
             [Lock_interrupt, Unpark, Unlock_interrupt])"
  using assms
  by (cases vm) (simp add: wakeup_def lock_interrupt_def unlock_interrupt_def
        set_check_local_interrupts_def Let_def unpark_def perform_def)

text \<open>
  Claim C4, amended. On a mutator with no active wait record and no pending interrupt by
  signal, \<open>wakeup\<close> reports failure and changes nothing but the check-local-interrupts
  flag, which it raises; it calls nothing outside and leaves the interrupt lock free. On a
  mutator whose only wait is that it is parked, \<open>wakeup\<close> reports success and a second
  \<open>wakeup\<close> right after it reports failure and changes nothing.
\<close>

theorem wakeup_without_wait_fails:
  assumes "\<not> interrupt_lock vm" and "\<not> interrupt_with_signal vm"
  shows "(wait_kinds vm = [] \<longrightarrow>
            wakeup vm = Some (False, vm\<lparr>check_local_interrupts := True\<rparr>,
                              [Lock_interrupt, Unlock_interrupt]))
       \<and> (wait_kinds vm = [Parked_token] \<longrightarrow>
            (\<exists>w1 w2. wakeup vm = Some (True, w1) \<and> wakeup (fst w1) = Some (False, w2)
                \<and> fst w2 = fst w1))"
proof (intro conjI impI)
  assume "wait_kinds vm = []"
  with assms show "wakeup vm = Some (False, vm\<lparr>check_local_interrupts := True\<rparr>,
                              [Lock_interrupt, Unlock_interrupt])"
    by (simp add: wakeup_idle)
next
  assume p: "wait_kinds vm = [Parked_token]"
  let ?vm1 = "vm\<lparr>check_local_interrupts := True, parked := False\<rparr>"
  have first: "wakeup vm = Some (True, ?vm1, [Lock_interrupt, Unpark, Unlock_interrupt])"
    using assms p by (simp add: wakeup_parked only_parked)
  have "wait_kinds ?vm1 = []"
    using p by (simp add: only_parked no_wait_kinds)
  then have "wakeup ?vm1 = Some (False, ?vm1\<lparr>check_local_interrupts := True\<rparr>,
                              [Lock_interrupt, Unlock_interrupt])"
    using assms by (simp add: wakeup_idle)
  then have second: "wakeup ?vm1 = Some (False, ?vm1, [Lock_interrupt, Unlock_interrupt])"
    by simp
  from first second
  show "\<exists>w1 w2. wakeup vm = Some (True, w1) \<and> wakeup (fst w1) = Some (False, w2)
          \<and> fst w2 = fst w1"
    by simp
qed

theorem wakeup_without_wait_fails_witness:
  "wakeup (idle_vm\<lparr>check_local_interrupts := True\<rparr>)
      = Some (False, idle_vm\<lparr>check_local_interrupts := True\<rparr>, [Lock_interrupt, Unlock_interrupt])
   \<and> (\<exists>w1 w2. wakeup (idle_vm\<lparr>parked := True\<rparr>) = Some (True, w1)
         \<and> wakeup (fst w1) = Some (False, w2) \<and> fst w2 = fst w1)"
proof -
  have a: "\<not> interrupt_lock (idle_vm\<lparr>check_local_interrupts := True\<rparr>)"
      "\<not> interrupt_with_signal (idle_vm\<lparr>check_local_interrupts := True\<rparr>)"
      "wait_kinds (idle_vm\<lparr>check_local_interrupts := True\<rparr>) = []"
    and b: "\<not> interrupt_lock (idle_vm\<lparr>parked := True\<rparr>)"
      "\<not> interrupt_with_signal (idle_vm\<lparr>parked := True\<rparr>)"
      "wait_kinds (idle_vm\<lparr>parked := True\<rparr>) = [Parked_token]"
    by (simp_all add: idle_vm_def wait_kinds_def nil_p_def)
  show ?thesis
    using wakeup_without_wait_fails [OF a(1) a(2)] a(3)
      wakeup_without_wait_fails [OF b(1) b(2)] b(3)
    by simp
qed

subsection \<open>The order of the lock and the calls\<close>

lemma wakeup_blocked_on_object:
  assumes "\<not> interrupt_lock vm" and "\<not> parked vm" and "\<not> interrupt_with_signal vm"
    and "\<not> nil_p (waiting_object vm)"
  shows "wakeup vm
     = Some (True, vm\<lparr>check_local_interrupts := True\<rparr>,
             [Lock_interrupt, Inflated_header (waiting_object vm), Unlock_interrupt,
              Inflated_wakeup (waiting_object vm), Unlock_interrupt])"
  using assms
  by (cases vm) (simp add: wakeup_def lock_interrupt_def unlock_interrupt_def
        set_check_local_interrupts_def Let_def perform_def)

text \<open>
  Claim C7. A call of \<open>wakeup\<close> that takes the branch of a mutator blocked on an object
  (not parked, no interrupt by signal pending, the object not nil) looks the inflated
  header up under the interrupt lock, releases the lock, and only then calls the header's
  wake path: no call into the object's lock is made while the interrupt lock is held.
\<close>

theorem wakeup_unlocks_before_object_wake:
  assumes "\<not> interrupt_lock vm" and "\<not> parked vm" and "\<not> interrupt_with_signal vm"
    and "\<not> nil_p (waiting_object vm)"
  shows "\<exists>vm' es. wakeup vm = Some (True, vm', es)
     \<and> es = [Lock_interrupt, Inflated_header (waiting_object vm), Unlock_interrupt,
              Inflated_wakeup (waiting_object vm), Unlock_interrupt]
     \<and> unlocked_calls False es
     \<and> \<not> interrupt_lock vm'"
  using assms by (simp add: wakeup_blocked_on_object)

theorem wakeup_unlocks_before_object_wake_witness:
  "\<exists>vm'. wakeup (idle_vm\<lparr>waiting_object := HeapRef 5\<rparr>)
       = Some (True, vm', [Lock_interrupt, Inflated_header (HeapRef 5), Unlock_interrupt,
                          Inflated_wakeup (HeapRef 5), Unlock_interrupt])
     \<and> unlocked_calls False [Lock_interrupt, Inflated_header (HeapRef 5), Unlock_interrupt,
                          Inflated_wakeup (HeapRef 5), Unlock_interrupt]"
proof -
  have a: "\<not> interrupt_lock (idle_vm\<lparr>waiting_object := HeapRef 5\<rparr>)"
    "\<not> parked (idle_vm\<lparr>waiting_object := HeapRef 5\<rparr>)"
    "\<not> interrupt_with_signal (idle_vm\<lparr>waiting_object := HeapRef 5\<rparr>)"
    "\<not> nil_p (waiting_object (idle_vm\<lparr>waiting_object := HeapRef 5\<rparr>))"
    by (simp_all add: idle_vm_def nil_p_def)
  from wakeup_unlocks_before_object_wake [OF a]
  show ?thesis by auto
qed

lemma wakeup_lock_discipline:
  assumes "wakeup vm = Some (r, vm', es)"
  shows "unlocked_calls False es \<and> \<not> interrupt_lock vm'"
  using assms
  by (auto simp: wakeup_def lock_interrupt_def unlock_interrupt_def
        set_check_local_interrupts_def Let_def perform_def unpark_def split: if_splits)

section \<open>Properties of the type check\<close>

text \<open>
  Claim C9. \<open>type_assert\<close> signals the type error exactly when the object is a heap
  reference whose type tag differs from the expected one, or the expected type is the
  fixnum type and the object is not a fixnum. The error carries the expected type, the
  object and the message made of the reason and the description of the value. In every
  other case the call returns and the heap is as it was.
\<close>

theorem type_assert_signals_exactly_mismatches:
  "((\<exists>e. type_assert objs to_string obj ty reason = Inl e)
      \<longleftrightarrow> ((\<exists>a. obj = HeapRef a \<and> header_type (objs a) \<noteq> ty)
           \<or> (ty = FixnumType \<and> (\<forall>n. obj \<noteq> FixnumValue n))))
   \<and> (\<forall>e. type_assert objs to_string obj ty reason = Inl e
          \<longrightarrow> e = Type_error ty obj (reason @ '': '' @ to_string obj))
   \<and> ((\<forall>e. type_assert objs to_string obj ty reason \<noteq> Inl e)
          \<longrightarrow> type_assert objs to_string obj ty reason = Inr objs)"
  by (cases obj) (auto simp: type_assert_def reference_p_def fixnum_p_def type_id_def)

theorem type_assert_signals_exactly_mismatches_witness:
  "type_assert (objects example_om) (\<lambda>v. ''nil'') (HeapRef 7) StringType ''expected''
      = Inl (Type_error StringType (HeapRef 7) ''expected: nil'')
   \<and> type_assert (objects example_om) (\<lambda>v. ''nil'') cNil FixnumType ''expected''
      = Inl (Type_error FixnumType cNil ''expected: nil'')
   \<and> type_assert (objects example_om) (\<lambda>v. ''nil'') cNil StringType ''expected''
      = Inr (objects example_om)
   \<and> type_assert (objects example_om) (\<lambda>v. ''nil'') (FixnumValue 3) FixnumType ''expected''
      = Inr (objects example_om)"
proof -
  have a: "\<exists>a. HeapRef 7 = HeapRef a \<and> header_type (objects example_om a) \<noteq> StringType"
    by (simp add: example_om_def)
  have b: "FixnumType = FixnumType \<and> (\<forall>n. cNil \<noteq> FixnumValue n)"
    by simp
  have c: "\<not> ((\<exists>a. cNil = HeapRef a \<and> header_type (objects example_om a) \<noteq> StringType)
           \<or> (StringType = FixnumType \<and> (\<forall>n. cNil \<noteq> FixnumValue n)))"
    by simp
  have d: "\<not> ((\<exists>a. FixnumValue 3 = HeapRef a \<and> header_type (objects example_om a) \<noteq> FixnumType)
           \<or> (FixnumType = FixnumType \<and> (\<forall>n. FixnumValue 3 \<noteq> FixnumValue n)))"
    by simp
  note t = type_assert_signals_exactly_mismatches [of "objects example_om" "\<lambda>v. ''nil''" _ _ "''expected''"]
  have "type_assert (objects example_om) (\<lambda>v. ''nil'') (HeapRef 7) StringType ''expected''
      = Inl (Type_error StringType (HeapRef 7) ''expected: nil'')"
    using t [of "HeapRef 7" StringType] a by auto
  moreover have "type_assert (objects example_om) (\<lambda>v. ''nil'') cNil FixnumType ''expected''
      = Inl (Type_error FixnumType cNil ''expected: nil'')"
    using t [of cNil FixnumType] b by auto
  moreover have "type_assert (objects example_om) (\<lambda>v. ''nil'') cNil StringType ''expected''
      = Inr (objects example_om)"
    using t [of cNil StringType] c by auto
  moreover have "type_assert (objects example_om) (\<lambda>v. ''nil'') (FixnumValue 3) FixnumType ''expected''
      = Inr (objects example_om)"
    using t [of "FixnumValue 3" FixnumType] d by auto
  ultimately show ?thesis by simp
qed

section \<open>Properties of the checkpoint\<close>

lemma collect_maybe_eq:
  "collect_maybe (nx, mem, es) =
     (nx,
      mem\<lparr>collect_young_now := False, collect_mature_now := False,
          young_collections := young_collections mem + (if collect_young_now mem then 1 else 0),
          mature_collections := mature_collections mem + (if collect_mature_now mem then 1 else 0)\<rparr>,
      es @ (if collect_young_now mem then [Collected_young] else [])
         @ (if collect_mature_now mem then [Collected_mature] else []))"
  by (cases mem) (simp add: collect_maybe_def)

text \<open>
  Claim C8. A \<open>checkpoint\<close> with the stop flag down returns with no effect. With the flag
  up, the thread tries to take the coordinator lock: the thread that takes it runs the
  pending collections and then releases the lock, which clears the stop flag; a thread
  that finds the lock taken yields and changes nothing (it tries again at its next
  checkpoint).
\<close>

theorem checkpoint_collects_under_the_lock:
  "(\<not> stop nx \<longrightarrow> checkpoint (nx, mem) vm_id = (nx, mem, []))
   \<and> (stop nx \<and> nexus_lock nx = None \<longrightarrow>
        checkpoint (nx, mem) vm_id =
          (nx\<lparr>stop := False, nexus_lock := None\<rparr>,
           mem\<lparr>collect_young_now := False, collect_mature_now := False,
               young_collections := young_collections mem + (if collect_young_now mem then 1 else 0),
               mature_collections := mature_collections mem + (if collect_mature_now mem then 1 else 0)\<rparr>,
           [Locked vm_id]
             @ (if collect_young_now mem then [Collected_young] else [])
             @ (if collect_mature_now mem then [Collected_mature] else [])
             @ [Unlocked]))
   \<and> (stop nx \<and> nexus_lock nx \<noteq> None \<longrightarrow>
        checkpoint (nx, mem) vm_id = (nx, mem, [Yielded vm_id]))"
  by (simp add: checkpoint_def stop_p_def lock_or_yield_def nexus_unlock_def collect_maybe_eq)


theorem checkpoint_collects_under_the_lock_witness:
  "checkpoint (idle_nexus, example_om) 1 = (idle_nexus, example_om, [])
   \<and> checkpoint (run_gc_soon (idle_nexus, example_om)) 1
       = (idle_nexus, example_om\<lparr>young_collections := 1, mature_collections := 1\<rparr>,
          [Locked 1, Collected_young, Collected_mature, Unlocked])
   \<and> checkpoint (\<lparr>stop = True, nexus_lock = Some 2\<rparr>, example_om) 1
       = (\<lparr>stop = True, nexus_lock = Some 2\<rparr>, example_om, [Yielded 1])"
proof -
  have "checkpoint (idle_nexus, example_om) 1 = (idle_nexus, example_om, [])"
    using checkpoint_collects_under_the_lock [of idle_nexus example_om 1]
    by (simp add: idle_nexus_def)
  moreover have "checkpoint (run_gc_soon (idle_nexus, example_om)) 1
       = (idle_nexus, example_om\<lparr>young_collections := 1, mature_collections := 1\<rparr>,
          [Locked 1, Collected_young, Collected_mature, Unlocked])"
    using checkpoint_collects_under_the_lock
      [of "set_stop idle_nexus"
          "example_om\<lparr>collect_young_now := True, collect_mature_now := True\<rparr>" 1]
    by (simp add: idle_nexus_def run_gc_soon_def set_stop_def example_om_def)
  moreover have "checkpoint (\<lparr>stop = True, nexus_lock = Some 2\<rparr>, example_om) 1
       = (\<lparr>stop = True, nexus_lock = Some 2\<rparr>, example_om, [Yielded 1])"
    using checkpoint_collects_under_the_lock
      [of "\<lparr>stop = True, nexus_lock = Some 2\<rparr>" example_om 1]
    by simp
  ultimately show ?thesis by simp
qed

section \<open>Properties of allocation\<close>

lemma slab_allocate_null:
  assumes "slab_allocate s bytes = (0, s')" and "cursor s = 0 \<longrightarrow> limit s = 0"
  shows "s' = s" and "slab_allocate s bytes = (0, s)"
  using assms by (cases s, auto simp: slab_allocate_def split: if_splits)+

lemma refill_slab_failed:
  "refill_slab mem slab = (False, mem', slab') \<Longrightarrow> slab' = slab"
  by (auto simp: refill_slab_def split: prod.splits if_splits)

lemma new_object_typed_dirty_refines:
  assumes "cursor (local_slab m) = 0 \<longrightarrow> limit (local_slab m) = 0"
  shows "new_object_typed_dirty m cls sz ty = local_allocate_spec m cls sz ty"
proof (cases "sz > large_object_threshold (shared_om m)")
  case True
  then show ?thesis
    by (simp add: new_object_typed_dirty_def local_allocate_spec_def)
next
  case False
  obtain obj slab1 where first: "slab_allocate (local_slab m) (unat sz) = (obj, slab1)"
    by (cases "slab_allocate (local_slab m) (unat sz)")
  show ?thesis
  proof (cases "obj = 0")
    case False
    with \<open>\<not> sz > large_object_threshold (shared_om m)\<close> first show ?thesis
      by (simp add: new_object_typed_dirty_def local_allocate_spec_def Let_def)
  next
    case True
    with first have null: "slab_allocate (local_slab m) (unat sz) = (0, slab1)"
      by simp
    have same: "slab1 = local_slab m"
      by (rule slab_allocate_null(1) [OF null assms])
    have again: "slab_allocate (local_slab m) (unat sz) = (0, local_slab m)"
      by (rule slab_allocate_null(2) [OF null assms])
    obtain refilled mem2 slab2 where
      refill: "refill_slab (shared_om m) (local_slab m) = (refilled, mem2, slab2)"
      by (cases "refill_slab (shared_om m) (local_slab m)")
    show ?thesis
    proof (cases refilled)
      case True
      with \<open>\<not> sz > large_object_threshold (shared_om m)\<close> first \<open>obj = 0\<close> same refill
      show ?thesis
        by (auto simp: new_object_typed_dirty_def local_allocate_spec_def Let_def
              split: prod.splits)
    next
      case False
      with refill have "refill_slab (shared_om m) (local_slab m) = (False, mem2, slab2)"
        by simp
      then have "slab2 = local_slab m"
        by (rule refill_slab_failed)
      with \<open>\<not> sz > large_object_threshold (shared_om m)\<close> first \<open>obj = 0\<close> same refill
        False again
      show ?thesis
        by (auto simp: new_object_typed_dirty_def local_allocate_spec_def Let_def
              split: prod.splits)
    qed
  qed
qed

lemma large_request_bypasses_slab:
  assumes "sz > large_object_threshold (shared_om m)"
  shows "new_object_typed_dirty m cls sz ty =
           (fst (om_new_object_typed_enduring_dirty (shared_om m) cls (unat sz) ty),
            m\<lparr>shared_om := snd (om_new_object_typed_enduring_dirty (shared_om m) cls (unat sz) ty)\<rparr>)"
    and "local_slab (snd (new_object_typed_dirty m cls sz ty)) = local_slab m"
    and "young (shared_om (snd (new_object_typed_dirty m cls sz ty))) = young (shared_om m)"
  using assms
  by (auto simp: new_object_typed_dirty_def om_new_object_typed_enduring_dirty_def
        split: prod.splits)

lemma small_request_bumps_slab:
  assumes "\<not> sz > large_object_threshold (shared_om m)"
    and "cursor (local_slab m) + unat sz \<le> limit (local_slab m)"
    and "cursor (local_slab m) \<noteq> 0"
  shows "new_object_typed_dirty m cls sz ty =
           (cursor (local_slab m),
            m\<lparr>local_slab := (local_slab m)\<lparr>cursor := cursor (local_slab m) + unat sz\<rparr>,
              shared_om := (shared_om m)\<lparr>objects :=
                init_header (objects (shared_om m)) (cursor (local_slab m)) cls YoungObjectZone ty\<rparr>\<rparr>)"
  using assms
  by (simp add: new_object_typed_dirty_def slab_allocate_def Let_def)

text \<open>
  Claim C6. On a mutator whose slab does not start at the null address,
  \<open>new_object_typed_dirty\<close> does what the specification's fast path does: a request above
  the large-object threshold leaves the slab and the young generation alone and is served
  by the mature heap; any other request bumps the cursor of the slab when room remains;
  on exhaustion \<open>refill_slab\<close> is called and the slab is tried once more; when that fails
  the slow path serves the request.
\<close>

theorem fast_path_follows_the_specification:
  assumes "cursor (local_slab m) = 0 \<longrightarrow> limit (local_slab m) = 0"
  shows "new_object_typed_dirty m cls sz ty = local_allocate_spec m cls sz ty
     \<and> (sz > large_object_threshold (shared_om m) \<longrightarrow>
          fst (new_object_typed_dirty m cls sz ty)
            = fst (om_new_object_typed_enduring_dirty (shared_om m) cls (unat sz) ty)
          \<and> local_slab (snd (new_object_typed_dirty m cls sz ty)) = local_slab m
          \<and> young (shared_om (snd (new_object_typed_dirty m cls sz ty))) = young (shared_om m))
     \<and> (\<not> sz > large_object_threshold (shared_om m)
          \<and> cursor (local_slab m) + unat sz \<le> limit (local_slab m)
          \<and> cursor (local_slab m) \<noteq> 0 \<longrightarrow>
          fst (new_object_typed_dirty m cls sz ty) = cursor (local_slab m)
          \<and> cursor (local_slab (snd (new_object_typed_dirty m cls sz ty)))
              = cursor (local_slab m) + unat sz
          \<and> young (shared_om (snd (new_object_typed_dirty m cls sz ty))) = young (shared_om m)
          \<and> mature (shared_om (snd (new_object_typed_dirty m cls sz ty))) = mature (shared_om m))"
proof (intro conjI impI)
  show "new_object_typed_dirty m cls sz ty = local_allocate_spec m cls sz ty"
    using assms by (rule new_object_typed_dirty_refines)
next
  assume big: "sz > large_object_threshold (shared_om m)"
  from large_request_bypasses_slab [OF big, of cls ty]
  show "fst (new_object_typed_dirty m cls sz ty)
            = fst (om_new_object_typed_enduring_dirty (shared_om m) cls (unat sz) ty)"
    and "local_slab (snd (new_object_typed_dirty m cls sz ty)) = local_slab m"
    and "young (shared_om (snd (new_object_typed_dirty m cls sz ty))) = young (shared_om m)"
    by simp_all
next
  assume small: "\<not> sz > large_object_threshold (shared_om m)
          \<and> cursor (local_slab m) + unat sz \<le> limit (local_slab m)
          \<and> cursor (local_slab m) \<noteq> 0"
  then have eq: "new_object_typed_dirty m cls sz ty =
           (cursor (local_slab m),
            m\<lparr>local_slab := (local_slab m)\<lparr>cursor := cursor (local_slab m) + unat sz\<rparr>,
              shared_om := (shared_om m)\<lparr>objects :=
                init_header (objects (shared_om m)) (cursor (local_slab m)) cls YoungObjectZone ty\<rparr>\<rparr>)"
    by (simp add: small_request_bumps_slab)
  show "fst (new_object_typed_dirty m cls sz ty) = cursor (local_slab m)"
    and "cursor (local_slab (snd (new_object_typed_dirty m cls sz ty)))
              = cursor (local_slab m) + unat sz"
    and "young (shared_om (snd (new_object_typed_dirty m cls sz ty))) = young (shared_om m)"
    and "mature (shared_om (snd (new_object_typed_dirty m cls sz ty))) = mature (shared_om m)"
    by (simp_all add: eq)
qed

theorem fast_path_follows_the_specification_witness:
  "new_object_typed_dirty example_mutator cNil 16 StringType
     = local_allocate_spec example_mutator cNil 16 StringType
   \<and> fst (new_object_typed_dirty example_mutator cNil 16 StringType) = 4096
   \<and> cursor (local_slab (snd (new_object_typed_dirty example_mutator cNil 16 StringType))) = 4112
   \<and> fst (new_object_typed_dirty example_mutator cNil 3000 StringType) = 65536
   \<and> local_slab (snd (new_object_typed_dirty example_mutator cNil 3000 StringType))
       = local_slab example_mutator"
proof -
  have wf: "cursor (local_slab example_mutator) = 0 \<longrightarrow> limit (local_slab example_mutator) = 0"
    by (simp add: example_mutator_def)
  have small: "\<not> 16 > large_object_threshold (shared_om example_mutator)
          \<and> cursor (local_slab example_mutator) + unat (16 :: 64 word)
               \<le> limit (local_slab example_mutator)
          \<and> cursor (local_slab example_mutator) \<noteq> 0"
    and big: "3000 > large_object_threshold (shared_om example_mutator)"
    by (simp_all add: example_mutator_def example_om_def)
  have mature: "fst (om_new_object_typed_enduring_dirty (shared_om example_mutator) cNil
                  (unat (3000 :: 64 word)) StringType) = 65536"
    by (simp add: om_new_object_typed_enduring_dirty_def slab_allocate_def example_mutator_def
          example_om_def)
  have c: "cursor (local_slab example_mutator) + unat (16 :: 64 word) = 4112"
    "cursor (local_slab example_mutator) = 4096"
    by (simp_all add: example_mutator_def)
  note t16 = fast_path_follows_the_specification [OF wf, of cNil 16 StringType]
  note t3000 = fast_path_follows_the_specification [OF wf, of cNil 3000 StringType]
  have "new_object_typed_dirty example_mutator cNil 16 StringType
     = local_allocate_spec example_mutator cNil 16 StringType"
    using t16 by (rule conjunct1)
  moreover have "fst (new_object_typed_dirty example_mutator cNil 16 StringType) = 4096
     \<and> cursor (local_slab (snd (new_object_typed_dirty example_mutator cNil 16 StringType))) = 4112"
    using t16 [THEN conjunct2, THEN conjunct2, rule_format, OF small] c by simp
  moreover have "fst (new_object_typed_dirty example_mutator cNil 3000 StringType) = 65536
     \<and> local_slab (snd (new_object_typed_dirty example_mutator cNil 3000 StringType))
       = local_slab example_mutator"
    using t3000 [THEN conjunct2, THEN conjunct1, rule_format, OF big] mature by simp
  ultimately show ?thesis by blast
qed

text \<open>
  Claim C10. When the byte size computed for a tuple exceeds the large-object threshold,
  \<open>new_young_tuple_dirty\<close> returns the null pointer and leaves the mutator, its slab and the
  object memory (the mature heap included) exactly as they were.
\<close>

theorem oversized_young_tuple_is_null:
  assumes "tuple_bytes lay nfields > large_object_threshold (shared_om m)"
  shows "new_young_tuple_dirty lay m nfields = (0, m)"
  using assms by (simp add: new_young_tuple_dirty_def Let_def)

theorem oversized_young_tuple_is_null_witness:
  "tuple_bytes example_tuple_layout 1000 > large_object_threshold (shared_om example_mutator)
   \<and> new_young_tuple_dirty example_tuple_layout example_mutator 1000 = (0, example_mutator)"
proof -
  have big: "tuple_bytes example_tuple_layout 1000 > large_object_threshold (shared_om example_mutator)"
    by (simp add: tuple_bytes_def example_tuple_layout_def example_mutator_def example_om_def)
  from oversized_young_tuple_is_null [OF big] big show ?thesis by simp
qed

end
